theory Spec2Isabelle
  imports Complex_Main "HOL-Library.Log_Nat"
begin

section \<open>JavaScript values used by the scraper\<close>

text \<open>
  The development embeds the current version of \<^verbatim>\<open>scripts/scrape_mayrand_onsale.mjs\<close>
  (the one that exports \<^verbatim>\<open>parseUnitPriceText\<close> for the test file).

  A JavaScript string is a sequence of UTF-16 code units, so it is modelled as a list of
  code units (integers from 0 to 65535): the regular expressions of the script mention the euro sign
  (U+20AC) and the Unicode space characters, which do not fit in an 8-bit \<open>char\<close>.
  \<open>js\<close> turns a literal of the script into such a list.
\<close>

type_synonym jstring = "int list"

definition js :: "string \<Rightarrow> jstring" where
  "js s = map of_char s"

text \<open>The class \<^verbatim>\<open>\s\<close> of a JavaScript regular expression (white space and line
  terminators); \<^verbatim>\<open>String.prototype.trim\<close> strips the same code units.\<close>

definition js_space :: "int \<Rightarrow> bool" where
  "js_space c \<longleftrightarrow>
     c = 9 \<or> c = 10 \<or> c = 11 \<or> c = 12 \<or> c = 13 \<or> c = 32 \<or> c = 160 \<or> c = 5760 \<or>
     (8192 \<le> c \<and> c \<le> 8202) \<or> c = 8232 \<or> c = 8233 \<or> c = 8239 \<or> c = 8287 \<or>
     c = 12288 \<or> c = 65279"

definition is_digit :: "int \<Rightarrow> bool" where
  "is_digit c \<longleftrightarrow> 48 \<le> c \<and> c \<le> 57"

text \<open>\<open>!value\<close> on a value that is \<open>null\<close> or a string: true for \<open>null\<close> and for the
  empty string.\<close>

definition falsy :: "jstring option \<Rightarrow> bool" where
  "falsy v \<longleftrightarrow> (case v of None \<Rightarrow> True | Some s \<Rightarrow> s = [])"

text \<open>\<open>a || b\<close> on such values.\<close>

definition or_else :: "jstring option \<Rightarrow> jstring option \<Rightarrow> jstring option" where
  "or_else a b = (if falsy a then b else a)"

text \<open>\<open>a ?? b\<close>.\<close>

definition nullish :: "'a option \<Rightarrow> 'a option \<Rightarrow> 'a option" where
  "nullish a b = (case a of None \<Rightarrow> b | Some x \<Rightarrow> Some x)"

subsection \<open>Numbers\<close>

text \<open>
  A JavaScript number is an IEEE 754 binary64 value. A finite one is represented by the
  rational it denotes (the script never produces a negative zero); \<open>binary64\<close> rounds a
  non-negative rational to the nearest representable value, ties to even, and overflows
  to \<open>Infinity\<close>, as the conversion of a decimal literal does: \<open>e\<close> is the binary
  exponent of \<open>q\<close> (at least that of the subnormal numbers), \<open>u\<close> the distance between
  neighbouring representable values there, and \<open>m\<close> the rounded 53-bit significand. The
  result overflows when the rounded value reaches \<open>2 ^ 1024\<close>.
\<close>

datatype jsnum = Fin rat | PosInf | NegInf | NaN

definition pow2 :: "int \<Rightarrow> rat" where
  "pow2 e = power_int 2 e"

definition floor_log2 :: "rat \<Rightarrow> int" where
  "floor_log2 q =
     (let (a, b) = quotient_of q; d = bitlen a - bitlen b
      in if pow2 d \<le> q then d else d - 1)"

definition round_half_even :: "rat \<Rightarrow> int" where
  "round_half_even x =
     (let f = \<lfloor>x\<rfloor>; r = x - of_int f
      in if r < 1 / 2 then f else if 1 / 2 < r then f + 1 else if even f then f else f + 1)"

definition binary64 :: "rat \<Rightarrow> jsnum" where
  "binary64 q =
     (if q \<le> 0 then Fin 0
      else
        let e = max (floor_log2 q) (- 1022);
            u = pow2 (e - 52);
            m = round_half_even (q / u)
        in if 1024 \<le> e \<or> (e = 1023 \<and> m = 2 ^ 53) then PosInf else Fin (of_int m * u))"

text \<open>The digits of a decimal literal, most significant first.\<close>

fun digits_val :: "int \<Rightarrow> jstring \<Rightarrow> int" where
  "digits_val acc [] = acc"
| "digits_val acc (c # cs) = digits_val (10 * acc + (c - 48)) cs"

text \<open>
  \<open>Number.parseFloat\<close> on a string made of digits and dots, the only strings
  \<open>parseNumber\<close> passes to it: the longest prefix that is a decimal literal
  (\<^verbatim>\<open>digits\<close>, \<^verbatim>\<open>digits.\<close>, \<^verbatim>\<open>digits.digits\<close> or \<^verbatim>\<open>.digits\<close>) is converted, and the
  result is \<open>NaN\<close> when there is no such prefix.
\<close>

definition parseFloat :: "jstring \<Rightarrow> jsnum" where
  "parseFloat s =
     (let ip = takeWhile is_digit s;
          r = dropWhile is_digit s;
          fp = (case r of [] \<Rightarrow> [] | c # t \<Rightarrow> if c = 46 then takeWhile is_digit t else [])
      in if ip = [] \<and> fp = [] then NaN
         else binary64 (of_int (digits_val 0 (ip @ fp)) / 10 ^ length fp))"

section \<open>Price and text normaliser\<close>

text \<open>\<^verbatim>\<open>value.replace(/\s+/g, ' ')\<close>: every maximal run of white space becomes one space.\<close>

function collapse_ws :: "jstring \<Rightarrow> jstring" where
  "collapse_ws [] = []"
| "collapse_ws (c # cs) =
     (if js_space c then 32 # collapse_ws (dropWhile js_space cs) else c # collapse_ws cs)"
  by pat_completeness auto
termination
  by (relation "measure length") (auto simp: length_dropWhile_le less_Suc_eq_le)

definition trim :: "jstring \<Rightarrow> jstring" where
  "trim s = rev (dropWhile js_space (rev (dropWhile js_space s)))"

text \<open>\<^verbatim>\<open>value?.replace(/\s+/g, ' ').replace(/\u00a0/g, ' ').trim() ?? null\<close>\<close>

definition normalizeWhitespace :: "jstring option \<Rightarrow> jstring option" where
  "normalizeWhitespace v =
     (case v of None \<Rightarrow> None
      | Some s \<Rightarrow> Some (trim (map (\<lambda>c. if c = 160 then 32 else c) (collapse_ws s))))"

text \<open>
  \<open>parseNumber\<close>: the four \<open>replace\<close> calls, in the order of the source, then
  \<open>parseFloat\<close> and \<open>Number.isFinite\<close>.
\<close>

definition clean_number :: "jstring \<Rightarrow> jstring" where
  "clean_number v =
     filter (\<lambda>c. is_digit c \<or> c = 46)
       (map (\<lambda>c. if c = 44 then 46 else c)
         (filter (\<lambda>c. c \<noteq> 36)
           (filter (\<lambda>c. \<not> js_space c) v)))"

definition parseNumber :: "jstring option \<Rightarrow> rat option" where
  "parseNumber v =
     (if falsy v then None
      else
        let cleaned = clean_number (the v)
        in if cleaned = [] then None
           else (case parseFloat cleaned of Fin q \<Rightarrow> Some q | _ \<Rightarrow> None))"

record price_pair =
  sale :: "rat option"
  regular :: "rat option"

text \<open>\<open>[...prices].sort((a, b) => a - b)\<close> on finite numbers is the ascending sort.\<close>

definition parsePriceCandidates :: "jstring list \<Rightarrow> price_pair" where
  "parsePriceCandidates vs =
     (let prices = map the (filter (\<lambda>e. e \<noteq> None) (map (\<lambda>e. parseNumber (Some e)) vs))
      in if length prices = 0 then \<lparr>sale = None, regular = None\<rparr>
         else
           let sorted = sort prices
           in \<lparr>sale = Some (sorted ! 0),
               regular = (if length sorted > 1 then Some (sorted ! (length sorted - 1)) else None)\<rparr>)"

definition normalizePricePair :: "price_pair \<Rightarrow> price_pair" where
  "normalizePricePair p =
     (if regular p = None \<and> sale p \<noteq> None then \<lparr>sale = None, regular = sale p\<rparr>
      else if sale p \<noteq> None \<and> regular p \<noteq> None \<and> sale p = regular p
        then \<lparr>sale = None, regular = regular p\<rparr>
      else \<lparr>sale = sale p, regular = regular p\<rparr>)"


subsection \<open>Regular expressions\<close>

text \<open>
  The fragment of JavaScript regular expressions that \<open>parseUnitPriceText\<close> uses:
  classes of code units, sequence, alternative, the greedy quantifiers \<^verbatim>\<open>?\<close>, \<^verbatim>\<open>*\<close> and
  \<^verbatim>\<open>+\<close> (the last two on classes only, which is how the script uses them) and capture
  groups. \<open>LitI\<close> is a literal under the flag \<^verbatim>\<open>i\<close>: two code units match when their
  upper-case forms agree, and a code unit outside ASCII never matches an ASCII letter.
\<close>

datatype cls = Lit int | LitI int | Digit | Space | AnyOf "int list" | NoneOf "int list"

datatype rx =
  C cls | Seq rx rx | Alt rx rx | Opt rx | Star cls | Plus cls | Grp nat rx

definition ascii_upper :: "int \<Rightarrow> int" where
  "ascii_upper c = (if 97 \<le> c \<and> c \<le> 122 then c - 32 else c)"

fun cls_match :: "cls \<Rightarrow> int \<Rightarrow> bool" where
  "cls_match (Lit a) c = (c = a)"
| "cls_match (LitI a) c = (ascii_upper c = ascii_upper a)"
| "cls_match Digit c = is_digit c"
| "cls_match Space c = js_space c"
| "cls_match (AnyOf as) c = (c \<in> set as)"
| "cls_match (NoneOf as) c = (c \<notin> set as)"

text \<open>
  Backtracking as a list of successes: \<open>rx_match r s g\<close> lists, in the order in which a
  backtracking matcher tries them, the ways \<open>r\<close> can match a prefix of \<open>s\<close>; each is
  the rest of the input with the captures made so far. A greedy quantifier tries the
  longest repetition first.
\<close>

type_synonym captures = "nat \<Rightarrow> jstring option"

fun rx_match :: "rx \<Rightarrow> jstring \<Rightarrow> captures \<Rightarrow> (jstring \<times> captures) list" where
  "rx_match (C k) s g = (case s of [] \<Rightarrow> [] | c # t \<Rightarrow> if cls_match k c then [(t, g)] else [])"
| "rx_match (Seq a b) s g = concat (map (\<lambda>(t, g'). rx_match b t g') (rx_match a s g))"
| "rx_match (Alt a b) s g = rx_match a s g @ rx_match b s g"
| "rx_match (Opt a) s g = rx_match a s g @ [(s, g)]"
| "rx_match (Star k) s g =
     map (\<lambda>n. (drop n s, g)) (rev [0 ..< Suc (length (takeWhile (cls_match k) s))])"
| "rx_match (Plus k) s g =
     map (\<lambda>n. (drop n s, g)) (rev [1 ..< Suc (length (takeWhile (cls_match k) s))])"
| "rx_match (Grp n a) s g =
     map (\<lambda>(t, g'). (t, g'(n \<mapsto> take (length s - length t) s))) (rx_match a s g)"

text \<open>\<open>String.prototype.match\<close> without the flag \<^verbatim>\<open>g\<close>: the first match at the
  leftmost position where there is one.\<close>

fun rx_search :: "rx \<Rightarrow> jstring \<Rightarrow> captures option" where
  "rx_search r [] = (case rx_match r [] (\<lambda>_. None) of [] \<Rightarrow> None | (t, g) # _ \<Rightarrow> Some g)"
| "rx_search r (c # cs) =
     (case rx_match r (c # cs) (\<lambda>_. None) of [] \<Rightarrow> rx_search r cs | (t, g) # _ \<Rightarrow> Some g)"

text \<open>
  \<^verbatim>\<open>/(?:\$|\<euro>)?\s*([0-9]+(?:[.,][0-9]+)?)\s*(?:\$|\<euro>)?\s*(?:\/|par)\s*([^\n]+)/i\<close>,
  where \<^verbatim>\<open>\<euro>\<close> stands for the euro sign U+20AC (code unit 8364).
\<close>

definition currency_rx :: rx where
  "currency_rx = Opt (Alt (C (Lit 36)) (C (Lit 8364)))"

definition number_rx :: rx where
  "number_rx = Seq (Plus Digit) (Opt (Seq (C (AnyOf [46, 44])) (Plus Digit)))"

definition separator_rx :: rx where
  "separator_rx = Alt (C (Lit 47)) (Seq (C (LitI 112)) (Seq (C (LitI 97)) (C (LitI 114))))"

definition unit_price_rx :: rx where
  "unit_price_rx =
     Seq currency_rx (Seq (Star Space) (Seq (Grp 1 number_rx) (Seq (Star Space)
       (Seq currency_rx (Seq (Star Space) (Seq separator_rx (Seq (Star Space)
         (Grp 2 (Plus (NoneOf [10]))))))))))"

record unit_price_text =
  unitPrice :: "rat option"
  unitLabel :: "jstring option"

definition parseUnitPriceText :: "jstring option \<Rightarrow> unit_price_text" where
  "parseUnitPriceText v =
     (if falsy v then \<lparr>unitPrice = None, unitLabel = None\<rparr>
      else
        let normalized = trim (map (\<lambda>c. if c = 160 then 32 else c) (collapse_ws (the v)))
        in case rx_search unit_price_rx normalized of
             None \<Rightarrow> \<lparr>unitPrice = None, unitLabel = None\<rparr>
           | Some g \<Rightarrow> \<lparr>unitPrice = parseNumber (g 1), unitLabel = normalizeWhitespace (g 2)\<rparr>)"

text \<open>The first way a backtracking matcher finds, if any.\<close>

definition first_match :: "rx \<Rightarrow> jstring \<Rightarrow> captures \<Rightarrow> (jstring \<times> captures) option" where
  "first_match r s g = (case rx_match r s g of [] \<Rightarrow> None | y # _ \<Rightarrow> Some y)"









section \<open>Records, identity keys and deduplication\<close>

text \<open>
  The canonical record. The field \<^verbatim>\<open>image\<close> is called \<open>image_ref\<close> here (\<open>image\<close> is a
  constant of HOL). A field that the script fills with a string or \<open>null\<close> is an option.
\<close>

record item =
  source :: jstring
  query :: jstring
  name :: "jstring option"
  brand :: "jstring option"
  sku :: "jstring option"
  price_sale :: "rat option"
  price_regular :: "rat option"
  unit_label :: "jstring option"
  unit_price :: "rat option"
  url :: "jstring option"
  image_ref :: "jstring option"
  category :: "jstring option"
  scraped_at :: jstring

text \<open>
  The functions of the JavaScript platform that the script calls and that are not
  modelled here are parameters: \<open>number_text\<close> is the conversion of a number to a string
  in a template literal, \<open>url_resolve\<close> is \<^verbatim>\<open>new URL(u, base).toString()\<close> (\<open>None\<close> when
  the constructor throws), \<open>url_page_param\<close> is the finite value, if any, of
  \<^verbatim>\<open>Number.parseInt(new URL(u, base).searchParams.get('page'), 10)\<close>, \<open>url_with_param\<close>
  is \<^verbatim>\<open>searchParams.set\<close> followed by \<^verbatim>\<open>toString()\<close>, and \<open>encodeURIComponent\<close> and
  \<open>toLowerCase\<close> are themselves.
\<close>

record platform =
  number_text :: "rat \<Rightarrow> jstring"
  url_resolve :: "jstring \<Rightarrow> jstring \<Rightarrow> jstring option"
  url_page_param :: "jstring \<Rightarrow> jstring \<Rightarrow> int option"
  url_with_param :: "jstring \<Rightarrow> jstring \<Rightarrow> jstring \<Rightarrow> jstring"
  encodeURIComponent :: "jstring \<Rightarrow> jstring"
  toLowerCase :: "jstring \<Rightarrow> jstring"

text \<open>\<^verbatim>\<open>`${item.name}__${item.price_sale}__${item.unit_label || ''}`\<close>\<close>

definition price_text :: "platform \<Rightarrow> rat option \<Rightarrow> jstring" where
  "price_text pf p = (case p of None \<Rightarrow> js ''null'' | Some q \<Rightarrow> number_text pf q)"

definition buildFallbackKey :: "platform \<Rightarrow> item \<Rightarrow> jstring option" where
  "buildFallbackKey pf it =
     (if falsy (name it) then None
      else Some (the (name it) @ js ''__'' @ price_text pf (price_sale it) @ js ''__'' @
                 (if falsy (unit_label it) then [] else the (unit_label it))))"

text \<open>\<^verbatim>\<open>item?.sku || item?.url || buildFallbackKey(item)\<close>\<close>

definition uniqueKeyForItem :: "platform \<Rightarrow> item \<Rightarrow> jstring option" where
  "uniqueKeyForItem pf it = or_else (sku it) (or_else (url it) (buildFallbackKey pf it))"

text \<open>
  The body of \<^verbatim>\<open>pageItems.forEach\<close> in \<open>scrapeListing\<close>: the key is chosen by the chain of
  \<open>if\<close>s of the source, and the state is the \<open>Map\<close> \<open>uniqueItems\<close> with the array
  \<open>allItems\<close>. (The counters \<open>keyStats\<close> are only logged and are left out.)
\<close>

definition listing_key :: "platform \<Rightarrow> item \<Rightarrow> jstring option" where
  "listing_key pf it =
     (if \<not> falsy (sku it) then sku it
      else if \<not> falsy (url it) then url it
      else if \<not> falsy (name it) then buildFallbackKey pf it
      else None)"

type_synonym dedup_state = "(jstring \<rightharpoonup> item) \<times> item list"

definition add_page_item :: "platform \<Rightarrow> dedup_state \<Rightarrow> item \<Rightarrow> dedup_state" where
  "add_page_item pf st it =
     (let key = listing_key pf it
      in if \<not> falsy key then
           (if fst st (the key) = None then ((fst st)(the key \<mapsto> it), snd st @ [it]) else st)
         else (fst st, snd st @ [it]))"

definition add_page_items :: "platform \<Rightarrow> dedup_state \<Rightarrow> item list \<Rightarrow> dedup_state" where
  "add_page_items pf st pageItems = foldl (add_page_item pf) st pageItems"

text \<open>The second pass, in \<open>main\<close>, over the items of the chosen query.\<close>

definition add_final_item :: "platform \<Rightarrow> dedup_state \<Rightarrow> item \<Rightarrow> dedup_state" where
  "add_final_item pf st it =
     (let key = uniqueKeyForItem pf it
      in if \<not> falsy key then
           (if fst st (the key) \<noteq> None then st else ((fst st)(the key \<mapsto> it), snd st @ [it]))
         else (fst st, snd st @ [it]))"

definition final_items :: "platform \<Rightarrow> item list \<Rightarrow> item list" where
  "final_items pf candidateItems = snd (foldl (add_final_item pf) (Map.empty, []) candidateItems)"

text \<open>The invariant of both passes: the keys of the map are the keys of the records
  that are in the list.\<close>

definition keys_recorded :: "platform \<Rightarrow> dedup_state \<Rightarrow> bool" where
  "keys_recorded pf st \<longleftrightarrow>
     (\<forall>k. (fst st k \<noteq> None) = (\<exists>r \<in> set (snd st). uniqueKeyForItem pf r = Some k))"

section \<open>Normalising a listing card\<close>

text \<open>
  One element of \<^verbatim>\<open>extracted.results\<close>, as \<open>scrapePage\<close> returns it. Its fields carry the
  prefix \<open>c_\<close> where the name is also a field of the canonical record.
\<close>

record fragment =
  c_name :: "jstring option"
  c_brand :: "jstring option"
  c_sku :: "jstring option"
  priceSaleText :: "jstring option"
  priceRegularText :: "jstring option"
  priceCandidates :: "jstring list"
  c_unitLabel :: "jstring option"
  link :: "jstring option"
  c_image :: "jstring option"
  c_category :: "jstring option"

text \<open>\<^verbatim>\<open>const resolveUrl = (maybeUrl, baseUrl) => ...\<close>\<close>

definition resolveUrl :: "platform \<Rightarrow> jstring option \<Rightarrow> jstring \<Rightarrow> jstring option" where
  "resolveUrl pf maybeUrl baseUrl =
     (if falsy maybeUrl then None else url_resolve pf (the maybeUrl) baseUrl)"

text \<open>\<^verbatim>\<open>anchor.replace(/\s+/g, '-').slice(0, 80)\<close>\<close>

function dash_ws :: "jstring \<Rightarrow> jstring" where
  "dash_ws [] = []"
| "dash_ws (c # cs) =
     (if js_space c then 45 # dash_ws (dropWhile js_space cs) else c # dash_ws cs)"
  by pat_completeness auto
termination
  by (relation "measure length") (auto simp: length_dropWhile_le less_Suc_eq_le)

definition buildFallbackUrl ::
  "platform \<Rightarrow> jstring option \<Rightarrow> jstring option \<Rightarrow> jstring \<Rightarrow> jstring" where
  "buildFallbackUrl pf sku_v name_v baseUrl =
     (let anchor = or_else sku_v name_v
      in if falsy anchor then baseUrl
         else baseUrl @ js ''#'' @ encodeURIComponent pf (take 80 (dash_ws (the anchor))))"

text \<open>
  The function mapped over \<^verbatim>\<open>extracted.results\<close> in \<open>scrapeListing\<close>. \<open>now\<close> is
  \<^verbatim>\<open>new Date().toISOString()\<close>, \<open>pageCategory\<close> is \<^verbatim>\<open>extracted.breadcrumb || null\<close>.
\<close>

definition listing_prices :: "fragment \<Rightarrow> price_pair" where
  "listing_prices f =
     (let parsedSale = parseNumber (priceSaleText f);
          parsedRegular = parseNumber (priceRegularText f);
          pr = (if parsedSale \<noteq> None \<or> parsedRegular \<noteq> None
                then \<lparr>sale = parsedSale, regular = parsedRegular\<rparr>
                else parsePriceCandidates (priceCandidates f))
      in normalizePricePair \<lparr>sale = sale pr, regular = regular pr\<rparr>)"

definition listing_item ::
  "platform \<Rightarrow> jstring \<Rightarrow> jstring \<Rightarrow> jstring option \<Rightarrow> jstring \<Rightarrow> fragment \<Rightarrow> item" where
  "listing_item pf query_v baseUrlString pageCategory now f =
     (let normalizedPrices = listing_prices f;
          resolvedLink = resolveUrl pf (link f) baseUrlString;
          resolvedImage = resolveUrl pf (c_image f) baseUrlString
      in \<lparr>source = js ''mayrand'',
          query = query_v,
          name = c_name f,
          brand = c_brand f,
          sku = c_sku f,
          price_sale = sale normalizedPrices,
          price_regular = regular normalizedPrices,
          unit_label = c_unitLabel f,
          unit_price = None,
          url = (if falsy resolvedLink
                 then Some (buildFallbackUrl pf (c_sku f) (c_name f) baseUrlString)
                 else resolvedLink),
          image_ref = resolvedImage,
          category = or_else (c_category f) pageCategory,
          scraped_at = now\<rparr>)"

section \<open>Detail enrichment\<close>

text \<open>What \<open>scrapeProductPage\<close> returns; the prefix \<open>d_\<close> avoids the names of \<open>fragment\<close>.\<close>

record details =
  productName :: "jstring option"
  productBrand :: "jstring option"
  productSku :: "jstring option"
  offerPrices :: "jstring list"
  h1Text :: "jstring option"
  ogTitle :: "jstring option"
  breadcrumb :: "jstring option"
  d_priceSaleText :: "jstring option"
  d_priceRegularText :: "jstring option"
  d_priceCandidates :: "jstring list"
  d_unitLabel :: "jstring option"
  unitPriceText :: "jstring option"

text \<open>\<^verbatim>\<open>url.match(/-(\d{3,})(?:\D|$)/)\<close>: the first dash followed by at least three digits;
  the group is the whole run of digits.\<close>

fun sku_in_url :: "jstring \<Rightarrow> jstring option" where
  "sku_in_url [] = None"
| "sku_in_url (c # cs) =
     (if c = 45 \<and> 3 \<le> length (takeWhile is_digit cs) then Some (takeWhile is_digit cs)
      else sku_in_url cs)"

definition extractSkuFromUrl :: "jstring option \<Rightarrow> jstring option" where
  "extractSkuFromUrl u = (if falsy u then None else sku_in_url (the u))"

text \<open>\<open>x || null\<close> at the end of a chain of \<open>||\<close>.\<close>

definition or_null :: "jstring option \<Rightarrow> jstring option" where
  "or_null v = (if falsy v then None else v)"

text \<open>
  The body of the \<open>try\<close> block of the worker, after \<open>scrapeProductPage\<close> has returned
  \<open>d\<close>. \<^verbatim>\<open>filter(Boolean)\<close> drops \<open>null\<close> and \<open>0\<close> from the parsed offer prices.
\<close>

definition detail_prices :: "details \<Rightarrow> price_pair" where
  "detail_prices d =
     (let parsedSale = parseNumber (d_priceSaleText d);
          parsedRegular = parseNumber (d_priceRegularText d);
          offers = map the (filter (\<lambda>e. e \<noteq> None \<and> e \<noteq> Some 0)
                     (map (\<lambda>e. parseNumber (Some e)) (offerPrices d)));
          offerSale = (if length offers > 0 then Some (Min (set offers)) else None);
          offerRegular = (if length offers > 1 then Some (Max (set offers)) else None);
          cands = (if parsedSale \<noteq> None \<or> parsedRegular \<noteq> None
                   then \<lparr>sale = parsedSale, regular = parsedRegular\<rparr>
                   else parsePriceCandidates (d_priceCandidates d));
          combinedPriceSale = nullish parsedSale (nullish offerSale (sale cands));
          combinedPriceRegular = nullish parsedRegular (nullish offerRegular (regular cands))
      in normalizePricePair \<lparr>sale = combinedPriceSale, regular = combinedPriceRegular\<rparr>)"

definition enrich_with :: "item \<Rightarrow> details \<Rightarrow> item" where
  "enrich_with it d =
     (let normalizedPrices = detail_prices d;
          unitPriceParsed = parseUnitPriceText (unitPriceText d);
          nameFallback =
            or_else (h1Text d) (or_else (ogTitle d) (or_else (productName d)
              (or_else (name it) (or_else (sku it) (or_else (url it)
                (Some (js ''Produit Mayrand'')))))))
      in it\<lparr>name := nameFallback,
            brand := or_null (or_else (productBrand d) (brand it)),
            sku := or_null (or_else (productSku d) (or_else (sku it) (extractSkuFromUrl (url it)))),
            price_sale := nullish (sale normalizedPrices) (price_sale it),
            price_regular := nullish (regular normalizedPrices) (price_regular it),
            unit_label :=
              or_null (or_else (d_unitLabel d) (or_else (unitLabel unitPriceParsed) (unit_label it))),
            unit_price := nullish (unitPrice unitPriceParsed) (unit_price it),
            category := or_null (or_else (breadcrumb d) (category it))\<rparr>)"

datatype error = Error jstring

text \<open>
  One slot of \<open>enrichItemsWithDetails\<close>. The workers share the counter \<open>index\<close>, so
  each slot is handled once, by one worker, and written at its own index; \<open>fetch i\<close> is
  what \<open>scrapeProductPage\<close> did for slot \<open>i\<close>: the details, or the error it threw, which
  the \<open>catch\<close> block turns into the listing record with a name.
\<close>

definition enrich_slot :: "item \<Rightarrow> error + details \<Rightarrow> item" where
  "enrich_slot it r =
     (if falsy (url it) then it
      else case r of
             Inr d \<Rightarrow> enrich_with it d
           | Inl e \<Rightarrow>
               it\<lparr>name := or_else (name it) (or_else (sku it) (or_else (url it)
                       (Some (js ''Produit Mayrand''))))\<rparr>)"

definition enrichItemsWithDetails :: "(nat \<Rightarrow> error + details) \<Rightarrow> item list \<Rightarrow> item list" where
  "enrichItemsWithDetails fetch items =
     map (\<lambda>i. enrich_slot (items ! i) (fetch i)) [0 ..< length items]"

section \<open>The rendering surface\<close>

text \<open>
  The browser page is an external collaborator. Its state is a type parameter \<open>'s\<close>, and
  every awaited call is a function from the state to a result and the next state; a call
  that can reject returns its error on the left. \<open>bnd\<close> is sequencing with \<open>await\<close>
  (an error skips the rest), \<open>catch\<close> is \<^verbatim>\<open>try { ... } catch { ... }\<close>.
\<close>

type_synonym ('s, 'a) io = "'s \<Rightarrow> (error + 'a) \<times> 's"

definition ret :: "'a \<Rightarrow> ('s, 'a) io" where
  "ret x = (\<lambda>s. (Inr x, s))"

definition bnd :: "('s, 'a) io \<Rightarrow> ('a \<Rightarrow> ('s, 'b) io) \<Rightarrow> ('s, 'b) io" where
  "bnd m f = (\<lambda>s. case m s of (Inl e, s') \<Rightarrow> (Inl e, s') | (Inr x, s') \<Rightarrow> f x s')"

definition catch :: "('s, 'a) io \<Rightarrow> (error \<Rightarrow> ('s, 'a) io) \<Rightarrow> ('s, 'a) io" where
  "catch m h = (\<lambda>s. case m s of (Inl e, s') \<Rightarrow> h e s' | (Inr x, s') \<Rightarrow> (Inr x, s'))"

definition lift :: "('s \<Rightarrow> 's) \<Rightarrow> ('s, unit) io" where
  "lift f = (\<lambda>s. (Inr (), f s))"

text \<open>What \<open>getResultsDomState\<close> and \<open>scrapePage\<close> evaluate in the page.\<close>

record dom_state =
  cardsCount :: nat
  loaderVisible :: bool
  resultsCountText :: "jstring option"
  emptyStateText :: "jstring option"
  containerSelector :: "jstring option"

text \<open>\<open>disabled\<close> is \<open>null\<close> when the page has no next control; \<open>pageNumber\<close> is the
  value of \<^verbatim>\<open>Number.parseInt\<close> when it is finite (\<open>null\<close> and \<open>NaN\<close> are both \<open>None\<close>: the
  script only asks \<^verbatim>\<open>Number.isFinite\<close>).\<close>

record next_page =
  href :: "jstring option"
  pageNumber :: "int option"
  label :: "jstring option"
  disabled :: "bool option"

record extracted =
  results :: "fragment list"
  paginationLinks :: "jstring option list"
  paginationButtons :: "int list"
  nextPage :: next_page
  x_breadcrumb :: "jstring option"
  x_emptyStateText :: "jstring option"
  x_resultsCountText :: "jstring option"
  x_containerSelector :: "jstring option"
  visibleCardCount :: nat

text \<open>
  The places where the script writes debug artefacts (page content, screenshots, JSON
  and text files under \<^verbatim>\<open>outputs/debug\<close>). Each is one call of the sink; it can fail as
  the file system and the page can.
\<close>

datatype debug_event =
  PageError int | ZeroItems int | EmptyPage int | ExtractionZero int | PaginationFail int

record 's surface =
  page_url :: "'s \<Rightarrow> jstring"
  page_goto :: "jstring \<Rightarrow> ('s, unit) io"
  acceptCookies :: "'s \<Rightarrow> 's"
  waitForTimeout :: "int \<Rightarrow> ('s, unit) io"
  waitForSelector :: "int \<Rightarrow> ('s, unit) io"
  waitForLoadState :: "('s, unit) io"
  countCards :: "('s, nat) io"
  getResultsDomState :: "('s, dom_state) io"
  getListingCardCount :: "('s, nat) io"
  scrollToBottom :: "('s, unit) io"
  scrollToTop :: "('s, unit) io"
  scrapePage :: "('s, extracted) io"
  killOverlays :: "('s, unit) io"
  getActivePage :: "('s, int option) io"
  getCardsSignature :: "('s, jstring) io"
  getPagerText :: "('s, jstring) io"
  button_count :: "int \<Rightarrow> ('s, nat) io"
  button_attribute :: "int \<Rightarrow> jstring \<Rightarrow> ('s, jstring option) io"
  button_scrollIntoView :: "int \<Rightarrow> ('s, unit) io"
  button_click :: "int \<Rightarrow> bool \<Rightarrow> ('s, unit) io"
  debug_sink :: "debug_event \<Rightarrow> ('s, unit) io"
  sleep :: "int \<Rightarrow> 's \<Rightarrow> 's"
  random_below :: "int \<Rightarrow> 's \<Rightarrow> int"
  now_iso :: "'s \<Rightarrow> jstring"

text \<open>
  The fields are the calls of the script on the page: \<open>page_url\<close> is \<^verbatim>\<open>page.url()\<close>,
  \<open>countCards\<close> is \<^verbatim>\<open>page.locator(CARDS_SELECTOR).count()\<close>, the \<open>button_\<close> fields are the
  calls on \<^verbatim>\<open>button.pagination-btn[data-page="n"]\<close> (\<open>button_click n force\<close>), the functions
  that are one \<^verbatim>\<open>page.evaluate\<close> keep their names, \<open>acceptCookies\<close> catches all its errors,
  \<open>random_below n\<close> is \<^verbatim>\<open>Math.floor(Math.random() * n)\<close> and \<open>now_iso\<close> is
  \<^verbatim>\<open>new Date().toISOString()\<close>.
\<close>

section \<open>Waiting for the listing\<close>

definition PAGE_RETRY_COUNT :: nat where "PAGE_RETRY_COUNT = 2"
definition PAGE_MAX_LIMIT :: int where "PAGE_MAX_LIMIT = 100"
definition RESULTS_WAIT_TIMEOUT_MS :: int where "RESULTS_WAIT_TIMEOUT_MS = 20000"
definition RESULT_WAIT_ATTEMPTS :: nat where "RESULT_WAIT_ATTEMPTS = 10"
definition RESULT_WAIT_INITIAL_DELAY_MS :: int where "RESULT_WAIT_INITIAL_DELAY_MS = 500"
definition RESULT_WAIT_MAX_DELAY_MS :: int where "RESULT_WAIT_MAX_DELAY_MS = 1500"

function waitForCardsStable_from :: "'s surface \<Rightarrow> nat \<Rightarrow> nat \<Rightarrow> ('s, nat) io" where
  "waitForCardsStable_from io attempt lastCount =
     (if attempt < 3 then
        bnd (countCards io) (\<lambda>count.
          if count > 0 \<and> count = lastCount then ret count
          else bnd (waitForTimeout io 250) (\<lambda>_. waitForCardsStable_from io (attempt + 1) count))
      else ret lastCount)"
  by pat_completeness auto
termination
  by (relation "measure (\<lambda>(io, attempt, lastCount). 3 - attempt)") auto

definition waitForCardsStable :: "'s surface \<Rightarrow> ('s, nat) io" where
  "waitForCardsStable io = waitForCardsStable_from io 0 0"

text \<open>\<^verbatim>\<open>Math.round(RESULT_WAIT_INITIAL_DELAY_MS + step * (attempt - 1))\<close>\<close>

definition wait_delay :: "nat \<Rightarrow> int" where
  "wait_delay attempt =
     (let step = (if RESULT_WAIT_ATTEMPTS > 1
                  then (of_int (RESULT_WAIT_MAX_DELAY_MS - RESULT_WAIT_INITIAL_DELAY_MS) :: rat)
                         / of_nat (RESULT_WAIT_ATTEMPTS - 1)
                  else 0)
      in \<lfloor>of_int RESULT_WAIT_INITIAL_DELAY_MS + step * of_nat (attempt - 1) + 1 / 2\<rfloor>)"

function waitForResults_from :: "'s surface \<Rightarrow> nat \<Rightarrow> ('s, dom_state) io" where
  "waitForResults_from io attempt =
     (if attempt \<le> RESULT_WAIT_ATTEMPTS then
        bnd (getResultsDomState io) (\<lambda>st.
          if \<not> falsy (resultsCountText st) \<or> cardsCount st > 0 \<or> \<not> loaderVisible st
          then bnd (waitForTimeout io 200) (\<lambda>_. ret st)
          else bnd (waitForTimeout io (wait_delay attempt)) (\<lambda>_.
                 waitForResults_from io (attempt + 1)))
      else bnd (waitForTimeout io 500) (\<lambda>_. getResultsDomState io))"
  by pat_completeness auto
termination
  by (relation "measure (\<lambda>(io, attempt). Suc RESULT_WAIT_ATTEMPTS - attempt)") auto

definition waitForResultsWithRetry :: "'s surface \<Rightarrow> ('s, dom_state) io" where
  "waitForResultsWithRetry io = waitForResults_from io 1"

definition scrollForLazyLoad :: "'s surface \<Rightarrow> ('s, nat \<times> nat) io" where
  "scrollForLazyLoad io =
     bnd (getListingCardCount io) (\<lambda>initialCount.
     bnd (scrollToBottom io) (\<lambda>_.
     bnd (waitForTimeout io 500) (\<lambda>_.
     bnd (scrollToTop io) (\<lambda>_.
     bnd (waitForTimeout io 400) (\<lambda>_.
     bnd (getListingCardCount io) (\<lambda>finalCount.
     ret (initialCount, finalCount)))))))"


section \<open>Pagination\<close>

text \<open>\<^verbatim>\<open>String(targetPage)\<close> for an integer (below \<open>10 ^ 21\<close> in absolute value, where
  JavaScript still prints every digit).\<close>

function digits_of :: "int \<Rightarrow> jstring" where
  "digits_of n = (if n < 10 then [48 + n] else digits_of (n div 10) @ [48 + n mod 10])"
  by pat_completeness auto
termination
  by (relation "measure nat") auto

definition int_text :: "int \<Rightarrow> jstring" where
  "int_text n = (if n < 0 then 45 # digits_of (- n) else digits_of n)"

fun starts_with :: "jstring \<Rightarrow> jstring \<Rightarrow> bool" where
  "starts_with s [] = True"
| "starts_with [] (p # ps) = False"
| "starts_with (c # cs) (p # ps) = (c = p \<and> starts_with cs ps)"

fun includes_text :: "jstring \<Rightarrow> jstring \<Rightarrow> bool" where
  "includes_text [] p = starts_with [] p"
| "includes_text (c # cs) p = (starts_with (c # cs) p \<or> includes_text cs p)"

definition ends_with :: "jstring \<Rightarrow> jstring \<Rightarrow> bool" where
  "ends_with s p = starts_with (rev s) (rev p)"

definition pagerShowsTarget :: "platform \<Rightarrow> jstring \<Rightarrow> int \<Rightarrow> bool" where
  "pagerShowsTarget pf pagerText targetPage =
     (if pagerText = [] then False
      else
        let normalized = toLowerCase pf (collapse_ws pagerText);
            target = int_text targetPage
        in includes_text normalized (js '' '' @ target @ js '' '') \<or>
           ends_with normalized (js '' '' @ target) \<or>
           starts_with normalized (target @ js '' ''))"

record status =
  beforeActive :: "int option"
  afterActive :: "int option"
  sigChanged :: bool

text \<open>
  The loop of five clicks in \<open>goToPage\<close>. The inner \<open>try\<close> block yields the status
  that the function returns, or \<open>None\<close> when the loop goes on.
\<close>

function click_attempts :: "'s surface \<Rightarrow> platform \<Rightarrow> int \<Rightarrow> nat \<Rightarrow> ('s, status option) io" where
  "click_attempts io pf targetPage attempt =
     (if attempt \<le> 5 then
        bnd (killOverlays io) (\<lambda>_.
        bnd (getActivePage io) (\<lambda>beforeActive_v.
        bnd (countCards io) (\<lambda>beforeCount.
        bnd (getCardsSignature io) (\<lambda>beforeSig.
        bnd (getPagerText io) (\<lambda>beforePagerText.
        bnd (button_scrollIntoView io targetPage) (\<lambda>_.
        bnd (catch (button_click io targetPage False)
               (\<lambda>_. bnd (killOverlays io) (\<lambda>_. button_click io targetPage True))) (\<lambda>_.
        bnd (catch
               (bnd (waitForLoadState io) (\<lambda>_.
                bnd (waitForResultsWithRetry io) (\<lambda>_.
                bnd (waitForCardsStable io) (\<lambda>_.
                bnd (getActivePage io) (\<lambda>afterActive_v.
                bnd (countCards io) (\<lambda>afterCount.
                bnd (getCardsSignature io) (\<lambda>afterSig.
                bnd (getPagerText io) (\<lambda>afterPagerText.
                  if afterActive_v = Some targetPage \<or> pagerShowsTarget pf afterPagerText targetPage
                  then ret (Some \<lparr>beforeActive = beforeActive_v, afterActive = afterActive_v,
                                   sigChanged = (beforeActive_v \<noteq> afterActive_v \<or>
                                                 beforeCount \<noteq> afterCount)\<rparr>)
                  else bnd (waitForTimeout io 500) (\<lambda>_. ret None)))))))))
               (\<lambda>e. bnd (getActivePage io) (\<lambda>afterActive_v.
                      bnd (waitForTimeout io 800) (\<lambda>_. ret None))))
          (\<lambda>r. case r of
                 Some st \<Rightarrow> ret (Some st)
               | None \<Rightarrow> click_attempts io pf targetPage (attempt + 1)))))))))
      else bnd (debug_sink io (PaginationFail targetPage)) (\<lambda>_. ret None))"
  by pat_completeness auto
termination
  by (relation "measure (\<lambda>(io, pf, targetPage, attempt). 6 - attempt)") auto

definition goToPage :: "'s surface \<Rightarrow> platform \<Rightarrow> jstring \<Rightarrow> int \<Rightarrow> ('s, status option) io" where
  "goToPage io pf baseUrl targetPage =
     bnd (getActivePage io) (\<lambda>initialActive.
     bnd (button_count io targetPage) (\<lambda>n.
     bnd (if n > 0 then
            bnd (button_attribute io targetPage (js ''disabled'')) (\<lambda>a.
              if a \<noteq> None then ret True
              else bnd (button_attribute io targetPage (js ''aria-disabled'')) (\<lambda>b.
                     ret (b = Some (js ''true''))))
          else ret True) (\<lambda>by_url.
       if \<not> by_url then click_attempts io pf targetPage 1
       else
         bnd (case initialActive of Some a \<Rightarrow> ret (Some a) | None \<Rightarrow> getActivePage io)
           (\<lambda>beforeActive_v.
         bnd (page_goto io (url_with_param pf baseUrl (js ''page'') (int_text targetPage))) (\<lambda>_.
         bnd (waitForTimeout io 750) (\<lambda>_.
         bnd (waitForSelector io 15000) (\<lambda>_.
         bnd (waitForCardsStable io) (\<lambda>_.
         bnd (getActivePage io) (\<lambda>afterActive_v.
           ret (Some \<lparr>beforeActive = beforeActive_v, afterActive = afterActive_v,
                      sigChanged = (beforeActive_v \<noteq> afterActive_v)\<rparr>))))))))))"

text \<open>In \<open>goToPage\<close>, \<open>by_url\<close> holds when the page has no button for the target or the
  button is disabled: the function then navigates by the \<^verbatim>\<open>page\<close> parameter of the URL.\<close>

definition goToNextPage ::
  "'s surface \<Rightarrow> platform \<Rightarrow> jstring \<Rightarrow> next_page \<Rightarrow> ('s, status option) io" where
  "goToNextPage io pf baseUrl np =
     (if disabled np = Some True then ret None
      else if pageNumber np \<noteq> None then goToPage io pf baseUrl (the (pageNumber np))
      else if \<not> falsy (href np) then
        (let resolved = resolveUrl pf (href np) baseUrl
         in if falsy resolved then ret None
            else
              bnd (page_goto io (the resolved)) (\<lambda>_.
              bnd (waitForTimeout io 750) (\<lambda>_.
              bnd (waitForSelector io 15000) (\<lambda>_.
              bnd (waitForCardsStable io) (\<lambda>_.
              bnd (getActivePage io) (\<lambda>afterActive_v.
                ret (Some \<lparr>beforeActive = None, afterActive = afterActive_v,
                           sigChanged = False\<rparr>)))))))
      else ret None)"

definition getPaginationInfo :: "platform \<Rightarrow> jstring option list \<Rightarrow> jstring \<Rightarrow> int option" where
  "getPaginationInfo pf links baseUrl =
     foldl (\<lambda>maxPage_v h.
              if falsy h then maxPage_v
              else case url_page_param pf (the h) baseUrl of
                     None \<Rightarrow> maxPage_v
                   | Some n \<Rightarrow>
                       (case maxPage_v of
                          None \<Rightarrow> Some n
                        | Some m \<Rightarrow> if m \<noteq> 0 then Some (max m n) else Some n))
       None links"

definition getMaxPageFromButtons :: "int list \<Rightarrow> int option" where
  "getMaxPageFromButtons buttons =
     (if length buttons = 0 then None
      else foldl (\<lambda>mx v. case mx of None \<Rightarrow> Some v | Some m \<Rightarrow> Some (max m v)) None buttons)"

section \<open>Listing traversal\<close>

definition BASE_URL :: jstring where
  "BASE_URL = js ''https://mayrand.ca/fr/page-recherche''"

text \<open>The variables of \<open>scrapeListing\<close> that live across the pages.\<close>

record loop_state =
  currentPage :: int
  maxPage :: "int option"
  emptyPageStreak :: nat
  pageCount :: nat
  uniqueItems :: "jstring \<rightharpoonup> item"
  allItems :: "item list"

text \<open>
  The retry loop of one page. Its state is the variables \<open>extracted\<close> and \<open>lastError\<close>;
  the body of the \<open>try\<close> block yields whether the loop breaks. It never rejects.
\<close>

function page_attempts ::
  "'s surface \<Rightarrow> jstring \<Rightarrow> int \<Rightarrow> nat \<Rightarrow> extracted option \<Rightarrow> error option \<Rightarrow>
     ('s, extracted option \<times> error option) io" where
  "page_attempts io pageUrl page_no attempt extracted_v lastError =
     (if attempt \<le> PAGE_RETRY_COUNT then
        bnd (catch
               (bnd (if page_no = 1 then page_goto io pageUrl else ret ()) (\<lambda>_.
                bnd (lift (acceptCookies io)) (\<lambda>_.
                bnd (waitForTimeout io 750) (\<lambda>_.
                bnd (catch (waitForSelector io RESULTS_WAIT_TIMEOUT_MS) (\<lambda>_. ret ())) (\<lambda>_.
                bnd (waitForCardsStable io) (\<lambda>_.
                bnd (waitForResultsWithRetry io) (\<lambda>_.
                bnd (scrollForLazyLoad io) (\<lambda>_.
                bnd (scrapePage io) (\<lambda>x.
                  if length (results x) > 0 \<or> attempt = PAGE_RETRY_COUNT
                  then ret (True, Some x, lastError)
                  else bnd (lift (sleep io 1000)) (\<lambda>_. ret (False, Some x, lastError)))))))))))
               (\<lambda>e. bnd (lift (sleep io 1000)) (\<lambda>_. ret (False, extracted_v, Some e))))
          (\<lambda>(stop, x, e).
             if stop then ret (x, e)
             else page_attempts io pageUrl page_no (attempt + 1) x e)
      else ret (extracted_v, lastError))"
  by pat_completeness auto
termination
  by (relation "measure (\<lambda>(io, pageUrl, page_no, attempt, x, e). Suc PAGE_RETRY_COUNT - attempt)")
    auto

text \<open>
  One turn of the \<open>while\<close> loop, up to the assignment \<open>currentPage = targetPage\<close>, in
  three parts. \<open>Stop r st\<close> is a \<open>break\<close> with \<open>stoppedReason = r\<close>, \<open>Continue st\<close> the
  end of the body.

  \<open>absorb_page\<close> is the part between the retry loop and the pagination that touches no
  page: the streak of empty pages, the records of the page (with one time stamp \<open>now\<close>),
  their deduplication, the page count and the largest page number seen.
\<close>

datatype step_result = Stop "string option" loop_state | Continue loop_state

definition absorb_page ::
  "platform \<Rightarrow> jstring \<Rightarrow> jstring \<Rightarrow> jstring \<Rightarrow> loop_state \<Rightarrow> extracted \<Rightarrow> loop_state" where
  "absorb_page pf query_v baseUrlString now st x =
     (let emptyPageStreak_v = (if visibleCardCount x = 0 then emptyPageStreak st + 1 else 0);
          pageCategory = or_null (x_breadcrumb x);
          pageItems = map (listing_item pf query_v baseUrlString pageCategory now) (results x);
          dd = add_page_items pf (uniqueItems st, allItems st) pageItems;
          derivedMaxPage =
            nullish (getMaxPageFromButtons (paginationButtons x))
              (getPaginationInfo pf (paginationLinks x) baseUrlString);
          maxPage_v =
            (case derivedMaxPage of
               None \<Rightarrow> maxPage st
             | Some d \<Rightarrow> (case maxPage st of None \<Rightarrow> Some d | Some m \<Rightarrow> Some (max m d)))
      in st\<lparr>maxPage := maxPage_v, emptyPageStreak := emptyPageStreak_v,
            pageCount := pageCount st + 1, uniqueItems := fst dd, allItems := snd dd\<rparr>)"

text \<open>
  \<open>page_visit\<close>: the retry loop, the debug artefacts and the two stops that need no
  transition. \<open>Visited x st\<close> is a page after which the loop tries to move on.
\<close>

datatype visit = Finished step_result | Visited extracted loop_state

definition page_visit ::
  "'s surface \<Rightarrow> platform \<Rightarrow> jstring \<Rightarrow> jstring \<Rightarrow> loop_state \<Rightarrow> ('s, visit) io" where
  "page_visit io pf query_v baseUrlString st = (\<lambda>s.
     let pageUrl = (if currentPage st = 1 then baseUrlString
                    else if page_url io s = [] then baseUrlString else page_url io s)
     in bnd (page_attempts io pageUrl (currentPage st) 0 None None) (\<lambda>(extracted_v, lastError).
        case extracted_v of
          None \<Rightarrow>
            bnd (debug_sink io (PageError (currentPage st))) (\<lambda>_. ret (Finished (Stop None st)))
        | Some x \<Rightarrow>
            bnd (if length (results x) = 0 then debug_sink io (ZeroItems (currentPage st))
                 else ret ()) (\<lambda>_.
            bnd (if visibleCardCount x = 0 then debug_sink io (EmptyPage (currentPage st))
                 else ret ()) (\<lambda>_. (\<lambda>s1.
            let st1 = absorb_page pf query_v baseUrlString (now_iso io s1) st x
            in bnd (if length (results x) = 0
                    then debug_sink io (ExtractionZero (currentPage st)) else ret ()) (\<lambda>_.
               if emptyPageStreak st1 \<ge> 2
                 then ret (Finished (Stop (Some ''empty-pages-streak'') st1))
               else if maxPage st1 \<noteq> None \<and> currentPage st \<ge> the (maxPage st1)
                 then ret (Finished (Stop (Some ''max-page-reached'') st1))
               else ret (Visited x st1)) s1)))) s)"

text \<open>\<open>paginate\<close>: the next control first, then the page after the current one when a
  larger page number is known. The target of the loop is \<open>currentPage + 1\<close>.\<close>

definition paginate ::
  "'s surface \<Rightarrow> platform \<Rightarrow> jstring \<Rightarrow> extracted \<Rightarrow> loop_state \<Rightarrow> ('s, status option) io" where
  "paginate io pf baseUrlString x st =
     bnd (if disabled (nextPage x) \<noteq> Some True
          then goToNextPage io pf baseUrlString (nextPage x) else ret None) (\<lambda>ps1.
       if ps1 = None \<and> maxPage st \<noteq> None \<and> currentPage st < the (maxPage st)
       then goToPage io pf baseUrlString (currentPage st + 1) else ret ps1)"

text \<open>\<open>after_transition\<close>: the two checks of \<open>paginationStatus\<close> and the pause.\<close>

definition after_transition ::
  "'s surface \<Rightarrow> extracted \<Rightarrow> loop_state \<Rightarrow> status option \<Rightarrow> ('s, step_result) io" where
  "after_transition io x st paginationStatus =
     (case paginationStatus of
        None \<Rightarrow>
          ret (Stop (Some (if disabled (nextPage x) = Some True
                           then ''next-disabled'' else ''no-next-page'')) st)
      | Some ps \<Rightarrow>
          if afterActive ps \<noteq> Some (currentPage st + 1)
          then ret (Stop (Some ''no-next-page'') st)
          else bnd (lift (\<lambda>s. sleep io (500 + random_below io 700 s) s))
                 (\<lambda>_. ret (Continue st)))"

definition page_step ::
  "'s surface \<Rightarrow> platform \<Rightarrow> jstring \<Rightarrow> jstring \<Rightarrow> loop_state \<Rightarrow> ('s, step_result) io" where
  "page_step io pf query_v baseUrlString st =
     bnd (page_visit io pf query_v baseUrlString st) (\<lambda>v.
       case v of
         Finished r \<Rightarrow> ret r
       | Visited x st1 \<Rightarrow>
           bnd (paginate io pf baseUrlString x st1) (after_transition io x st1))"

text \<open>
  The \<open>while\<close> loop. After a turn that ends normally the page number becomes
  \<open>targetPage\<close>, which is \<open>currentPage + 1\<close>. The loop ends with the reason of the
  \<open>break\<close>, or with none when its condition fails.
\<close>

function scrape_loop ::
  "'s surface \<Rightarrow> platform \<Rightarrow> jstring \<Rightarrow> jstring \<Rightarrow> loop_state \<Rightarrow>
     ('s, string option \<times> loop_state) io" where
  "scrape_loop io pf query_v baseUrlString st s =
     (if currentPage st \<le> PAGE_MAX_LIMIT then
        (case page_step io pf query_v baseUrlString st s of
           (Inl e, s') \<Rightarrow> (Inl e, s')
         | (Inr (Stop r st'), s') \<Rightarrow> (Inr (r, st'), s')
         | (Inr (Continue st'), s') \<Rightarrow>
             scrape_loop io pf query_v baseUrlString (st'\<lparr>currentPage := currentPage st + 1\<rparr>) s')
      else (Inr (None, st), s))"
  by pat_completeness auto
termination
  by (relation "measure (\<lambda>(io, pf, q, b, st, s). nat (PAGE_MAX_LIMIT + 1 - currentPage st))")
    auto

definition initial_loop_state :: loop_state where
  "initial_loop_state =
     \<lparr>currentPage = 1, maxPage = None, emptyPageStreak = 0, pageCount = 0,
      uniqueItems = Map.empty, allItems = []\<rparr>"

record traversal_result =
  baseUrl :: jstring
  items :: "item list"
  pagesScraped :: nat
  stoppedReason :: string

text \<open>The result field \<^verbatim>\<open>pageCount\<close> is called \<open>pagesScraped\<close> (the loop variable has the
  name already).\<close>

definition scrapeListing ::
  "'s surface \<Rightarrow> platform \<Rightarrow> jstring \<Rightarrow> ('s, traversal_result) io" where
  "scrapeListing io pf query_v =
     (let baseUrlString =
            (if query_v = [] then BASE_URL else url_with_param pf BASE_URL (js ''search'') query_v)
      in bnd (scrape_loop io pf query_v baseUrlString initial_loop_state)
           (\<lambda>(r, st).
              ret \<lparr>baseUrl = baseUrlString, items = allItems st, pagesScraped = pageCount st,
                   stoppedReason =
                     (case r of
                        Some reason \<Rightarrow> reason
                      | None \<Rightarrow> if currentPage st > PAGE_MAX_LIMIT then ''page-limit-reached''
                                else ''completed'')\<rparr>))"


section \<open>Publish guard\<close>

text \<open>
  The two files the guard reads are JSON texts. A file that is missing, unreadable or not
  JSON (\<open>readFile\<close> or \<open>JSON.parse\<close> throws) is \<open>None\<close>. The CSV file is represented by
  the records written to it.
\<close>

datatype json =
  JNull | JBool bool | JNum jsnum | JStr jstring | JArr "json list" | JObj "(jstring \<times> json) list"

record store =
  metadata_json :: "json option"
  data_json :: "json option"
  data_csv :: "item list option"

text \<open>\<^verbatim>\<open>Number.isFinite(metadata?.key)\<close> with the value: a later duplicate of a key wins
  in \<open>JSON.parse\<close>.\<close>

definition finite_prop :: "json \<Rightarrow> string \<Rightarrow> rat option" where
  "finite_prop j k =
     (case j of
        JObj kvs \<Rightarrow> (case map_of (rev kvs) (js k) of Some (JNum (Fin q)) \<Rightarrow> Some q | _ \<Rightarrow> None)
      | _ \<Rightarrow> None)"

definition readHistoricalCount :: "store \<Rightarrow> rat" where
  "readHistoricalCount st =
     (case (case metadata_json st of
              None \<Rightarrow> None
            | Some m \<Rightarrow>
                nullish (finite_prop m ''totalItems'')
                  (nullish (finite_prop m ''total_items'') (finite_prop m ''product_count'')))
      of Some n \<Rightarrow> n
       | None \<Rightarrow> (case data_json st of Some (JArr xs) \<Rightarrow> of_nat (length xs) | _ \<Rightarrow> 0))"

definition json_text :: "jstring option \<Rightarrow> json" where
  "json_text v = (case v of None \<Rightarrow> JNull | Some s \<Rightarrow> JStr s)"

definition json_number :: "rat option \<Rightarrow> json" where
  "json_number v = (case v of None \<Rightarrow> JNull | Some q \<Rightarrow> JNum (Fin q))"

definition item_json :: "item \<Rightarrow> json" where
  "item_json it =
     JObj [(js ''source'', JStr (source it)), (js ''query'', JStr (query it)),
           (js ''name'', json_text (name it)), (js ''brand'', json_text (brand it)),
           (js ''sku'', json_text (sku it)), (js ''price_sale'', json_number (price_sale it)),
           (js ''price_regular'', json_number (price_regular it)),
           (js ''unit_label'', json_text (unit_label it)),
           (js ''unit_price'', json_number (unit_price it)), (js ''url'', json_text (url it)),
           (js ''image'', json_text (image_ref it)), (js ''category'', json_text (category it)),
           (js ''scraped_at'', JStr (scraped_at it))]"

definition metadata_of :: "nat \<Rightarrow> item list \<Rightarrow> json" where
  "metadata_of pages enrichedItems =
     JObj [(js ''pagesScraped'', JNum (Fin (of_nat pages))),
           (js ''totalItems'', JNum (Fin (of_nat (length enrichedItems))))]"

text \<open>The end of \<open>main\<close>, from \<open>readHistoricalCount\<close> on; its state is the output directory.\<close>

definition publish :: "platform \<Rightarrow> nat \<Rightarrow> item list \<Rightarrow> (store, unit) io" where
  "publish pf pages enrichedItems = (\<lambda>st.
     let historicalCount = readHistoricalCount st
     in if length enrichedItems = 0 then
          (if historicalCount > 0 then
             (Inl (Error (js ''Mayrand onsale scrape returned 0 items; historical count '' @
                          number_text pf historicalCount @ js ''. Aborting publish.'')), st)
           else (Inr (), st\<lparr>metadata_json := Some (metadata_of pages enrichedItems)\<rparr>))
        else (Inr (), st\<lparr>data_json := Some (JArr (map item_json enrichedItems)),
                          data_csv := Some enrichedItems,
                          metadata_json := Some (metadata_of pages enrichedItems)\<rparr>))"

text \<open>What a traversal shows from outside: the pages counted, the reason, and the state
  the page is left in; \<open>None\<close> when the traversal rejects.\<close>

definition run_summary ::
  "'s surface \<Rightarrow> platform \<Rightarrow> jstring \<Rightarrow> 's \<Rightarrow> (nat \<times> string \<times> 's) option" where
  "run_summary io pf query_v s =
     (case scrapeListing io pf query_v s of
        (Inl e, s') \<Rightarrow> None
      | (Inr r, s') \<Rightarrow> Some (pagesScraped r, stoppedReason r, s'))"

text \<open>The loop over the queries in \<open>main\<close>: the first query with items wins, and the
  result of the first query is kept when every query is empty.\<close>

fun run_queries ::
  "'s surface \<Rightarrow> platform \<Rightarrow> jstring list \<Rightarrow> traversal_result option \<Rightarrow>
     ('s, traversal_result option) io" where
  "run_queries io pf [] result = ret result"
| "run_queries io pf (q # qs) result =
     bnd (scrapeListing io pf q) (\<lambda>runResult.
       if length (items runResult) > 0 then ret (Some runResult)
       else run_queries io pf qs (if result = None then Some runResult else result))"

text \<open>
  \<open>main\<close>, on the page and the output directory. \<open>fetch\<close> is what the detail pages gave
  (see \<open>enrich_slot\<close>). Launching and closing the browser and creating the directories
  are left out.
\<close>

definition main ::
  "'s surface \<Rightarrow> platform \<Rightarrow> (nat \<Rightarrow> error + details) \<Rightarrow> ('s \<times> store, unit) io" where
  "main io pf fetch = (\<lambda>(s, st).
     case run_queries io pf [js ''onsale'', js ''promo'', js ''solde''] None s of
       (Inl e, s') \<Rightarrow> (Inl e, (s', st))
     | (Inr result, s') \<Rightarrow>
         (let candidateItems = (case result of None \<Rightarrow> [] | Some r \<Rightarrow> items r);
              finalItems = final_items pf candidateItems;
              enrichedItems = enrichItemsWithDetails fetch finalItems
          in case publish pf (case result of None \<Rightarrow> 0 | Some r \<Rightarrow> pagesScraped r)
                    enrichedItems st of
               (r, st') \<Rightarrow> (r, (s', st'))))"

section \<open>A small site for concrete runs\<close>

text \<open>
  A listing whose pages hold one card each, with the page number as its code. The state
  of the page is the number of the active page; the address never changes, as on a
  listing that is paged by buttons. \<open>buttons\<close> is what the page buttons show,
  \<open>has_button\<close> whether the button of a target exists, \<open>click_moves\<close> whether a click
  changes the page, \<open>next_state\<close> the \<open>disabled\<close> flag of the next control.
\<close>

record site =
  buttons :: "int list"
  has_button :: bool
  click_moves :: bool
  next_state :: "bool option"

definition demo_platform :: platform where
  "demo_platform =
     \<lparr>number_text = (\<lambda>q. js ''#''),
      url_resolve = (\<lambda>u b. Some u),
      url_page_param = (\<lambda>u b. None),
      url_with_param = (\<lambda>b k v. b @ js ''?'' @ k @ js ''='' @ v),
      encodeURIComponent = (\<lambda>s. s),
      toLowerCase = (\<lambda>s. s)\<rparr>"

definition demo_card :: "int \<Rightarrow> fragment" where
  "demo_card n =
     \<lparr>c_name = Some (js ''Produit''), c_brand = None, c_sku = Some (int_text n),
      priceSaleText = Some (js ''5,00 $''), priceRegularText = Some (js ''10,00 $''),
      priceCandidates = [], c_unitLabel = None, link = None, c_image = None,
      c_category = None\<rparr>"

definition demo_extracted :: "site \<Rightarrow> int \<Rightarrow> extracted" where
  "demo_extracted w s =
     \<lparr>results = [demo_card s], paginationLinks = [], paginationButtons = buttons w,
      nextPage = \<lparr>href = None, pageNumber = None, label = None, disabled = next_state w\<rparr>,
      x_breadcrumb = None, x_emptyStateText = None, x_resultsCountText = None,
      x_containerSelector = None, visibleCardCount = 1\<rparr>"

definition demo_surface :: "site \<Rightarrow> int surface" where
  "demo_surface w =
     \<lparr>page_url = (\<lambda>s. js ''https://mayrand.ca/fr/page-recherche?search=onsale''),
      page_goto = (\<lambda>u s. (Inr (), s)),
      acceptCookies = (\<lambda>s. s),
      waitForTimeout = (\<lambda>ms s. (Inr (), s)),
      waitForSelector = (\<lambda>ms s. (Inr (), s)),
      waitForLoadState = (\<lambda>s. (Inr (), s)),
      countCards = (\<lambda>s. (Inr 1, s)),
      getResultsDomState = (\<lambda>s.
        (Inr \<lparr>cardsCount = 1, loaderVisible = False, resultsCountText = None,
              emptyStateText = None, containerSelector = None\<rparr>, s)),
      getListingCardCount = (\<lambda>s. (Inr 1, s)),
      scrollToBottom = (\<lambda>s. (Inr (), s)),
      scrollToTop = (\<lambda>s. (Inr (), s)),
      scrapePage = (\<lambda>s. (Inr (demo_extracted w s), s)),
      killOverlays = (\<lambda>s. (Inr (), s)),
      getActivePage = (\<lambda>s. (Inr (Some s), s)),
      getCardsSignature = (\<lambda>s. (Inr [], s)),
      getPagerText = (\<lambda>s. (Inr [], s)),
      button_count = (\<lambda>k s. (Inr (if has_button w then 1 else 0), s)),
      button_attribute = (\<lambda>k a s. (Inr None, s)),
      button_scrollIntoView = (\<lambda>k s. (Inr (), s)),
      button_click = (\<lambda>k force s. (Inr (), if click_moves w then k else s)),
      debug_sink = (\<lambda>ev s. (Inr (), s)),
      sleep = (\<lambda>ms s. s),
      random_below = (\<lambda>n s. 0),
      now_iso = (\<lambda>s. js ''2024-01-01T00:00:00.000Z'')\<rparr>"


text \<open>
  Four sites: two pages reached by clicks; a site whose next control is disabled and
  whose page buttons do not react; a site without page buttons, where the \<^verbatim>\<open>page\<close>
  parameter of the address changes nothing; and a site of 150 pages.
\<close>

definition paged_site :: site where
  "paged_site = \<lparr>buttons = [1, 2], has_button = True, click_moves = True, next_state = None\<rparr>"

definition stuck_site :: site where
  "stuck_site =
     \<lparr>buttons = [1, 2], has_button = True, click_moves = False, next_state = Some True\<rparr>"

definition linked_site :: site where
  "linked_site = \<lparr>buttons = [1, 2], has_button = False, click_moves = False, next_state = None\<rparr>"

definition long_site :: site where
  "long_site = \<lparr>buttons = [1, 150], has_button = True, click_moves = True, next_state = None\<rparr>"

text \<open>A listing record (sale 5, regular 10) and a detail page that shows the current price
  only.\<close>

definition demo_item :: item where
  "demo_item =
     listing_item demo_platform (js ''onsale'')
       (js ''https://mayrand.ca/fr/page-recherche?search=onsale'') None
       (js ''2024-01-01T00:00:00.000Z'') (demo_card 1)"

definition demo_details :: details where
  "demo_details =
     \<lparr>productName = None, productBrand = None, productSku = None, offerPrices = [],
      h1Text = Some (js ''Produit''), ogTitle = None, breadcrumb = None,
      d_priceSaleText = Some (js ''5,00 $''), d_priceRegularText = None,
      d_priceCandidates = [], d_unitLabel = None, unitPriceText = None\<rparr>"


section \<open>Properties of the normaliser\<close>

subsection \<open>Rounding to binary64\<close>

lemma pow2_pos: "0 < pow2 e"
  by (simp add: pow2_def zero_less_power_int)

lemma pow2_add: "pow2 (a + b) = pow2 a * pow2 b"
  by (simp add: pow2_def power_int_add)

lemma pow2_mono: "a \<le> b \<Longrightarrow> pow2 a \<le> pow2 b"
  by (simp add: pow2_def power_int_increasing)

lemma pow2_nat: "pow2 (int n) = 2 ^ n"
  by (simp add: pow2_def)

lemma pow2_shift53: "2 ^ 53 * pow2 (e - 52) = pow2 (e + 1)"
proof -
  have "e + 1 = int 53 + (e - 52)" by simp
  then have "pow2 (e + 1) = pow2 (int 53 + (e - 52))" by (rule arg_cong)
  also have "\<dots> = pow2 (int 53) * pow2 (e - 52)" by (rule pow2_add)
  also have "\<dots> = 2 ^ 53 * pow2 (e - 52)" by (simp only: pow2_nat)
  finally show ?thesis by simp
qed

text \<open>\<open>floor_log2 q\<close> is not too small: \<open>q\<close> lies below the next power of two.\<close>

lemma floor_log2_upper:
  assumes "0 < q"
  shows "q < pow2 (floor_log2 q + 1)"
proof -
  obtain a b where ab: "quotient_of q = (a, b)" by (cases "quotient_of q")
  then have b: "0 < b" and q: "q = of_int a / of_int b"
    by (auto dest: quotient_of_denom_pos quotient_of_div)
  with assms have a: "0 < a" by (simp add: zero_less_divide_iff)
  define d where "d = bitlen a - bitlen b"
  show ?thesis
  proof (cases "pow2 d \<le> q")
    case False
    then show ?thesis using ab by (simp add: floor_log2_def d_def)
  next
    case True
    have ka: "a < 2 ^ nat (bitlen a)" using bitlen_bounds [OF a] by simp
    have kb: "2 ^ nat (bitlen b - 1) \<le> b" using bitlen_bounds [OF b] by simp
    have b1: "1 \<le> bitlen b" using b by (simp add: bitlen_alt_def)
    have "(of_int a :: rat) < of_int (2 ^ nat (bitlen a))" using ka by (simp only: of_int_less_iff)
    then have ka': "(of_int a :: rat) < pow2 (bitlen a)"
      using bitlen_nonneg [of a] by (simp add: pow2_def power_int_def)
    have "(of_int (2 ^ nat (bitlen b - 1)) :: rat) \<le> of_int b" using kb by (simp only: of_int_le_iff)
    then have kb': "pow2 (bitlen b - 1) \<le> (of_int b :: rat)"
      using b1 by (simp add: pow2_def power_int_def)
    have "d + 1 = bitlen a - (bitlen b - 1)" by (simp add: d_def)
    then have "pow2 (d + 1) = pow2 (bitlen a - (bitlen b - 1))" by (rule arg_cong)
    also have "\<dots> = pow2 (bitlen a) / pow2 (bitlen b - 1)"
      unfolding pow2_def by (rule power_int_diff) simp
    finally have "pow2 (d + 1) = pow2 (bitlen a) / pow2 (bitlen b - 1)" .
    moreover have "of_int a / of_int b < pow2 (bitlen a) / pow2 (bitlen b - 1)"
      using ka' kb' pow2_pos [of "bitlen b - 1"] a b
      by (intro frac_less) auto
    ultimately show ?thesis using True ab q by (simp add: floor_log2_def d_def)
  qed
qed

lemma round_half_even_le:
  assumes "x < of_int n"
  shows "round_half_even x \<le> n"
proof -
  have "\<lfloor>x\<rfloor> < n" using assms by (simp add: floor_less_iff)
  then show ?thesis by (simp add: round_half_even_def Let_def)
qed

lemma round_half_even_nonneg: "0 \<le> x \<Longrightarrow> 0 \<le> round_half_even x"
  by (simp add: round_half_even_def Let_def)

text \<open>A finite result of the rounding is non-negative and below \<open>2 ^ 1024\<close>.\<close>

lemma binary64_Fin:
  assumes "binary64 q = Fin v"
  shows "0 \<le> v \<and> v < 2 ^ 1024"
proof (cases "q \<le> 0")
  case True
  with assms show ?thesis by (simp add: binary64_def)
next
  case False
  define e where "e = max (floor_log2 q) (- 1022)"
  define u where "u = pow2 (e - 52)"
  define m where "m = round_half_even (q / u)"
  have u: "0 < u" unfolding u_def by (rule pow2_pos)
  from False assms have v: "v = of_int m * u" and fin: "\<not> (1024 \<le> e \<or> (e = 1023 \<and> m = 2 ^ 53))"
    by (auto simp: binary64_def Let_def e_def u_def m_def split: if_splits)
  from False u have "0 \<le> q / u" by simp
  then have m0: "0 \<le> m" unfolding m_def by (rule round_half_even_nonneg)
  have "q < pow2 (floor_log2 q + 1)" using False by (intro floor_log2_upper) simp
  also have "\<dots> \<le> pow2 (e + 1)" by (intro pow2_mono) (simp add: e_def)
  also have "\<dots> = 2 ^ 53 * u"
    unfolding u_def by (rule pow2_shift53 [symmetric])
  finally have "q / u < of_int (2 ^ 53)" using u by (simp add: pos_divide_less_eq)
  then have m53: "m \<le> 2 ^ 53" unfolding m_def by (rule round_half_even_le)
  have "v < 2 ^ 1024"
  proof (cases "e = 1023")
    case True
    with fin m53 have "m < 2 ^ 53" by simp
    then have "(of_int m :: rat) < of_int (2 ^ 53)" by (simp only: of_int_less_iff)
    then have "of_int m * u < 2 ^ 53 * u" using u by simp
    also have "\<dots> = pow2 1024" using pow2_shift53 [of 1023] True by (simp add: u_def)
    also have "\<dots> = 2 ^ 1024" using pow2_nat [of 1024] by simp
    finally show ?thesis by (simp add: v)
  next
    case False
    with fin have e: "e \<le> 1022" by simp
    have "(of_int m :: rat) \<le> of_int (2 ^ 53)" using m53 by (simp only: of_int_le_iff)
    then have "of_int m * u \<le> 2 ^ 53 * u" using u by simp
    also have "\<dots> = pow2 (e + 1)" unfolding u_def by (rule pow2_shift53)
    also have "\<dots> \<le> pow2 1023" using e by (intro pow2_mono) simp
    also have "\<dots> = 2 ^ 1023" using pow2_nat [of 1023] by simp
    also have "\<dots> < (2::rat) ^ 1024" by (intro power_strict_increasing) auto
    finally show ?thesis by (simp add: v)
  qed
  moreover have "0 \<le> v" using m0 u by (simp add: v)
  ultimately show ?thesis by simp
qed

subsection \<open>parseNumber\<close>

lemma clean_number_chars: "list_all (\<lambda>c. is_digit c \<or> c = 46) (clean_number s)"
  by (simp add: clean_number_def list_all_iff)

lemma parseNumber_Some:
  assumes "parseNumber v = Some q"
  shows "0 \<le> q \<and> q < 2 ^ 1024"
proof -
  define cl where "cl = clean_number (the v)"
  define fp where
    "fp = (case dropWhile is_digit cl of [] \<Rightarrow> [] | c # t \<Rightarrow> if c = 46 then takeWhile is_digit t else [])"
  from assms have "parseFloat cl = Fin q"
    by (auto simp: parseNumber_def Let_def cl_def split: if_splits jsnum.splits)
  then have "binary64 (of_int (digits_val 0 (takeWhile is_digit cl @ fp)) / 10 ^ length fp) = Fin q"
    by (simp add: parseFloat_def Let_def fp_def split: if_splits)
  then show ?thesis by (rule binary64_Fin)
qed

text \<open>
  C10. \<open>parseNumber\<close> returns \<open>null\<close> or a finite number that is not negative; the cleaned
  text never holds a minus sign (code unit 45): it is made of digits and dots only.
\<close>

theorem parseNumber_nonneg_finite:
  "(parseNumber v = None \<or> (\<exists>q. parseNumber v = Some q \<and> 0 \<le> q \<and> q < 2 ^ 1024))
   \<and> 45 \<notin> set (clean_number s)
   \<and> list_all (\<lambda>c. is_digit c \<or> c = 46) (clean_number s)"
proof -
  have "parseNumber v = None \<or> (\<exists>q. parseNumber v = Some q \<and> 0 \<le> q \<and> q < 2 ^ 1024)"
    using parseNumber_Some [of v] by (cases "parseNumber v") auto
  moreover have "45 \<notin> set (clean_number s)"
    by (auto simp: clean_number_def is_digit_def)
  ultimately show ?thesis using clean_number_chars by blast
qed

subsection \<open>normalizePricePair\<close>

text \<open>
  C9. \<open>normalizePricePair\<close> moves a lone sale price to \<open>regular\<close>, drops a sale price
  equal to the regular one, and returns any other pair unchanged; its result never has
  two equal prices.
\<close>

theorem normalizePricePair_cases:
  "normalizePricePair p =
     (if regular p = None \<and> sale p \<noteq> None then \<lparr>sale = None, regular = sale p\<rparr>
      else if sale p \<noteq> None \<and> regular p \<noteq> None \<and> sale p = regular p
        then \<lparr>sale = None, regular = regular p\<rparr>
      else p)
   \<and> \<not> (sale (normalizePricePair p) \<noteq> None \<and> regular (normalizePricePair p) \<noteq> None
          \<and> sale (normalizePricePair p) = regular (normalizePricePair p))"
  by (cases p) (auto simp: normalizePricePair_def)

subsection \<open>parsePriceCandidates\<close>

lemma sorted_nth0_Min: "sorted xs \<Longrightarrow> xs \<noteq> [] \<Longrightarrow> xs ! 0 = Min (set xs)"
  by (cases xs) (auto intro!: Min_eqI [symmetric])

lemma sorted_last_Max: 
  assumes s: "sorted xs" and ne: "xs \<noteq> []"
  shows "xs ! (length xs - 1) = Max (set xs)"
proof -
  have "last xs = Max (set xs)"
  proof (rule Max_eqI [symmetric])
    show "finite (set xs)" by simp
    show "last xs \<in> set xs" using ne by simp
    fix y assume "y \<in> set xs"
    then obtain i where i: "i < length xs" "xs ! i = y" by (auto simp: in_set_conv_nth)
    with s have "xs ! i \<le> xs ! (length xs - 1)" by (intro sorted_nth_mono) auto
    with i ne show "y \<le> last xs" by (simp add: last_conv_nth)
  qed
  with ne show ?thesis by (simp add: last_conv_nth)
qed

text \<open>
  C4, as the code has it. With the parsed values \<open>ps\<close> of the candidates that parse:
  no value gives two \<open>null\<close>s; otherwise \<open>sale\<close> is the minimum, and \<open>regular\<close> is the
  maximum as soon as two candidates parse, whether their values differ or not.
\<close>

theorem parsePriceCandidates_min_max:
  "parsePriceCandidates vs =
     (let ps = List.map_filter (\<lambda>e. parseNumber (Some e)) vs
      in if ps = [] then \<lparr>sale = None, regular = None\<rparr>
         else \<lparr>sale = Some (Min (set ps)),
               regular = (if length ps > 1 then Some (Max (set ps)) else None)\<rparr>)"
proof -
  define ps where "ps = List.map_filter (\<lambda>e. parseNumber (Some e)) vs"
  have eq: "map the (filter (\<lambda>e. e \<noteq> None) (map (\<lambda>e. parseNumber (Some e)) vs)) = ps"
    unfolding ps_def List.map_filter_def by (induction vs) auto
  show ?thesis
  proof (cases "ps = []")
    case True
    then show ?thesis using eq by (simp add: parsePriceCandidates_def ps_def [symmetric])
  next
    case False
    then have ne: "sort ps \<noteq> []" by (metis length_sort length_0_conv)
    have a: "sort ps ! 0 = Min (set ps)"
      using sorted_nth0_Min [OF sorted_sort ne] by simp
    have b: "sort ps ! (length ps - 1) = Max (set ps)"
      using sorted_last_Max [OF sorted_sort ne] by simp
    from False a b show ?thesis
      using eq by (simp add: parsePriceCandidates_def ps_def [symmetric] Let_def)
  qed
qed

text \<open>Two candidates with the same value: one distinct value, and \<open>regular\<close> is set.\<close>

theorem parsePriceCandidates_equal_pair:
  "parsePriceCandidates [js ''5'', js ''5''] = \<lparr>sale = Some 5, regular = Some 5\<rparr>"
  by code_simp


section \<open>The unit price pattern\<close>



lemma fm_Alt1: "first_match a s g = Some y \<Longrightarrow> first_match (Alt a b) s g = Some y"
  by (auto simp: first_match_def split: list.splits)

lemma fm_Alt2: "rx_match a s g = [] \<Longrightarrow> first_match (Alt a b) s g = first_match b s g"
  by (simp add: first_match_def)






lemma no_C: "\<not> cls_match k c \<Longrightarrow> rx_match (C k) (c # t) g = []"
  by simp












































section \<open>Deduplication\<close>

lemma listing_key_eq: "listing_key pf it = uniqueKeyForItem pf it"
  by (simp add: listing_key_def uniqueKeyForItem_def or_else_def buildFallbackKey_def)

lemma uniqueKey_truthy: "falsy (uniqueKeyForItem pf it) \<longleftrightarrow> uniqueKeyForItem pf it = None"
  by (auto simp: uniqueKeyForItem_def or_else_def buildFallbackKey_def falsy_def js_def
           split: option.splits)

lemma add_page_item_cases:
  "add_page_item pf (m, out) it =
     (case uniqueKeyForItem pf it of
        None \<Rightarrow> (m, out @ [it])
      | Some k \<Rightarrow> if m k = None then (m(k \<mapsto> it), out @ [it]) else (m, out))"
  using uniqueKey_truthy [of pf it]
  by (auto simp: add_page_item_def listing_key_eq Let_def split: option.splits)

lemma add_final_item_eq: "add_final_item pf st it = add_page_item pf st it"
  by (simp add: add_final_item_def add_page_item_def listing_key_eq Let_def)

lemma add_page_item_inv:
  assumes "keys_recorded pf (m, out)"
  shows "keys_recorded pf (add_page_item pf (m, out) it)"
  using assms unfolding add_page_item_cases keys_recorded_def
  by (cases "uniqueKeyForItem pf it") (auto split: if_splits)

lemma fold_keyed:
  assumes "keys_recorded pf (m, out)"
  shows "filter (\<lambda>r. uniqueKeyForItem pf r = Some k) (snd (foldl (add_page_item pf) (m, out) xs)) =
         filter (\<lambda>r. uniqueKeyForItem pf r = Some k) out @
         (if m k = None then take 1 (filter (\<lambda>r. uniqueKeyForItem pf r = Some k) xs) else [])"
  using assms
proof (induction xs arbitrary: m out)
  case Nil
  then show ?case by simp
next
  case (Cons x xs)
  obtain m' out' where st: "add_page_item pf (m, out) x = (m', out')"
    by (cases "add_page_item pf (m, out) x")
  have inv': "keys_recorded pf (m', out')"
    using add_page_item_inv [OF Cons.prems, of x] st by simp
  have none: "filter (\<lambda>r. uniqueKeyForItem pf r = Some k) out = []" if "m k = None"
  proof -
    from Cons.prems have "(m k \<noteq> None) = (\<exists>r \<in> set out. uniqueKeyForItem pf r = Some k)"
      by (simp add: keys_recorded_def)
    with that have "\<not> (\<exists>r \<in> set out. uniqueKeyForItem pf r = Some k)" by simp
    then show ?thesis by (simp add: filter_empty_conv)
  qed
  have step: "filter (\<lambda>r. uniqueKeyForItem pf r = Some k) (snd (foldl (add_page_item pf) (m', out') xs)) =
         filter (\<lambda>r. uniqueKeyForItem pf r = Some k) out' @
         (if m' k = None then take 1 (filter (\<lambda>r. uniqueKeyForItem pf r = Some k) xs) else [])"
    by (rule Cons.IH [OF inv'])
  show ?case
  proof (cases "uniqueKeyForItem pf x")
    case None
    with st have "m' = m" "out' = out @ [x]" by (auto simp: add_page_item_cases)
    with step None show ?thesis by (simp add: st)
  next
    case (Some j)
    show ?thesis
    proof (cases "m j = None")
      case True
      with st Some have eq: "m' = m(j \<mapsto> x)" "out' = out @ [x]" by (auto simp: add_page_item_cases)
      show ?thesis
      proof (cases "j = k")
        case True
        with eq step Some \<open>m j = None\<close> none show ?thesis by (simp add: st)
      next
        case False
        with eq step Some show ?thesis by (simp add: st)
      qed
    next
      case False
      with st Some have eq: "m' = m" "out' = out" by (auto simp: add_page_item_cases)
      from False Some eq step show ?thesis by (auto simp: st)
    qed
  qed
qed

lemma fold_keyless:
  "filter (\<lambda>r. uniqueKeyForItem pf r = None) (snd (foldl (add_page_item pf) (m, out) xs)) =
   filter (\<lambda>r. uniqueKeyForItem pf r = None) out @ filter (\<lambda>r. uniqueKeyForItem pf r = None) xs"
proof (induction xs arbitrary: m out)
  case Nil
  then show ?case by simp
next
  case (Cons x xs)
  obtain m' out' where st: "add_page_item pf (m, out) x = (m', out')"
    by (cases "add_page_item pf (m, out) x")
  have "filter (\<lambda>r. uniqueKeyForItem pf r = None) out' =
        filter (\<lambda>r. uniqueKeyForItem pf r = None) out @ filter (\<lambda>r. uniqueKeyForItem pf r = None) [x]"
    using st by (auto simp: add_page_item_cases split: option.splits if_splits)
  with Cons.IH [of m' out'] show ?case by (simp add: st)
qed

lemma pages_fold:
  "foldl (add_page_items pf) st pages = foldl (add_page_item pf) st (concat pages)"
  by (induction pages arbitrary: st) (simp_all add: add_page_items_def)

lemma keys_recorded_empty: "keys_recorded pf (Map.empty, [])"
  by (simp add: keys_recorded_def)

text \<open>
  C3. The identity key is the sku, else the url, else (with a name) the text
  \<open>name__price_sale__unit_label\<close>; both passes use it. In the records aggregated over
  the pages of a query, and in the records \<open>main\<close> keeps, the records with a given key
  are the first record of the input with that key and no other, and every record
  without a key is kept.
\<close>

theorem dedup_first_seen_wins:
  "uniqueKeyForItem pf it =
     (if \<not> falsy (sku it) then sku it
      else if \<not> falsy (url it) then url it
      else if \<not> falsy (name it)
        then Some (the (name it) @ js ''__'' @ price_text pf (price_sale it) @ js ''__'' @
                   (if falsy (unit_label it) then [] else the (unit_label it)))
      else None)
   \<and> listing_key pf it = uniqueKeyForItem pf it
   \<and> filter (\<lambda>r. uniqueKeyForItem pf r = Some k) (snd (foldl (add_page_items pf) (Map.empty, []) pages)) =
       take 1 (filter (\<lambda>r. uniqueKeyForItem pf r = Some k) (concat pages))
   \<and> filter (\<lambda>r. uniqueKeyForItem pf r = None) (snd (foldl (add_page_items pf) (Map.empty, []) pages)) =
       filter (\<lambda>r. uniqueKeyForItem pf r = None) (concat pages)
   \<and> filter (\<lambda>r. uniqueKeyForItem pf r = Some k) (final_items pf xs) =
       take 1 (filter (\<lambda>r. uniqueKeyForItem pf r = Some k) xs)
   \<and> filter (\<lambda>r. uniqueKeyForItem pf r = None) (final_items pf xs) =
       filter (\<lambda>r. uniqueKeyForItem pf r = None) xs"
proof -
  have fin: "final_items pf xs = snd (foldl (add_page_item pf) (Map.empty, []) xs)"
  proof -
    have "add_final_item pf = add_page_item pf" by (intro ext) (rule add_final_item_eq)
    then show ?thesis by (simp add: final_items_def)
  qed
  have "uniqueKeyForItem pf it =
     (if \<not> falsy (sku it) then sku it
      else if \<not> falsy (url it) then url it
      else if \<not> falsy (name it)
        then Some (the (name it) @ js ''__'' @ price_text pf (price_sale it) @ js ''__'' @
                   (if falsy (unit_label it) then [] else the (unit_label it)))
      else None)"
    by (simp add: uniqueKeyForItem_def or_else_def buildFallbackKey_def)
  then show ?thesis
    using fold_keyed [OF keys_recorded_empty, of pf k] fold_keyless [of pf Map.empty "[]"]
    by (simp add: listing_key_eq pages_fold fin)
qed

section \<open>Publish guard\<close>

text \<open>
  C2. With no record, the run fails and leaves the three files as they are when the
  historical count is positive, and writes the metadata only otherwise; with records it
  writes the dataset (JSON and CSV) and the metadata, whose \<open>totalItems\<close> is their number.
  The historical count is the first finite count of the metadata, else the length of the
  array in the data file, else zero. \<open>main\<close> is the traversal followed by this guard on the
  enriched records.
\<close>

theorem publish_guard:
  "(publish pf pages [] st =
      (if 0 < readHistoricalCount st
       then (Inl (Error (js ''Mayrand onsale scrape returned 0 items; historical count '' @
                         number_text pf (readHistoricalCount st) @ js ''. Aborting publish.'')), st)
       else (Inr (), st\<lparr>metadata_json := Some (metadata_of pages [])\<rparr>)))
   \<and> publish pf pages (x # xs) st =
       (Inr (), st\<lparr>data_json := Some (JArr (map item_json (x # xs))),
                     data_csv := Some (x # xs),
                     metadata_json := Some (metadata_of pages (x # xs))\<rparr>)
   \<and> readHistoricalCount (st\<lparr>metadata_json := None, data_json := None\<rparr>) = 0
   \<and> readHistoricalCount (st\<lparr>metadata_json := None, data_json := Some (JArr js_items)\<rparr>) =
       of_nat (length js_items)
   \<and> readHistoricalCount (st\<lparr>metadata_json := Some (JObj [(js ''totalItems'', JNum (Fin n))])\<rparr>) = n
   \<and> finite_prop (metadata_of pages (x # xs)) ''totalItems'' = Some (of_nat (length (x # xs)))
   \<and> main io pf fetch (s, st) =
       (case run_queries io pf [js ''onsale'', js ''promo'', js ''solde''] None s of
          (Inl e, s') \<Rightarrow> (Inl e, (s', st))
        | (Inr result, s') \<Rightarrow>
            (fst (publish pf (case result of None \<Rightarrow> 0 | Some r \<Rightarrow> pagesScraped r)
                    (enrichItemsWithDetails fetch
                       (final_items pf (case result of None \<Rightarrow> [] | Some r \<Rightarrow> items r))) st),
             (s', snd (publish pf (case result of None \<Rightarrow> 0 | Some r \<Rightarrow> pagesScraped r)
                    (enrichItemsWithDetails fetch
                       (final_items pf (case result of None \<Rightarrow> [] | Some r \<Rightarrow> items r))) st))))"
proof -
  have m: "main io pf fetch (s, st) =
       (case run_queries io pf [js ''onsale'', js ''promo'', js ''solde''] None s of
          (Inl e, s') \<Rightarrow> (Inl e, (s', st))
        | (Inr result, s') \<Rightarrow>
            (fst (publish pf (case result of None \<Rightarrow> 0 | Some r \<Rightarrow> pagesScraped r)
                    (enrichItemsWithDetails fetch
                       (final_items pf (case result of None \<Rightarrow> [] | Some r \<Rightarrow> items r))) st),
             (s', snd (publish pf (case result of None \<Rightarrow> 0 | Some r \<Rightarrow> pagesScraped r)
                    (enrichItemsWithDetails fetch
                       (final_items pf (case result of None \<Rightarrow> [] | Some r \<Rightarrow> items r))) st))))"
    by (simp add: main_def Let_def split: prod.splits sum.splits)
  have p: "(publish pf pages [] st =
      (if 0 < readHistoricalCount st
       then (Inl (Error (js ''Mayrand onsale scrape returned 0 items; historical count '' @
                         number_text pf (readHistoricalCount st) @ js ''. Aborting publish.'')), st)
       else (Inr (), st\<lparr>metadata_json := Some (metadata_of pages [])\<rparr>)))
   \<and> publish pf pages (x # xs) st =
       (Inr (), st\<lparr>data_json := Some (JArr (map item_json (x # xs))),
                     data_csv := Some (x # xs),
                     metadata_json := Some (metadata_of pages (x # xs))\<rparr>)
   \<and> readHistoricalCount (st\<lparr>metadata_json := None, data_json := None\<rparr>) = 0
   \<and> readHistoricalCount (st\<lparr>metadata_json := None, data_json := Some (JArr js_items)\<rparr>) =
       of_nat (length js_items)
   \<and> readHistoricalCount (st\<lparr>metadata_json := Some (JObj [(js ''totalItems'', JNum (Fin n))])\<rparr>) = n
   \<and> finite_prop (metadata_of pages (x # xs)) ''totalItems'' = Some (of_nat (length (x # xs)))"
    by (simp add: publish_def readHistoricalCount_def finite_prop_def nullish_def metadata_of_def
        js_def Let_def)
  from p m show ?thesis by (simp only: simp_thms)
qed

text \<open>The example of the specification: 120 records in the metadata, none now.\<close>

lemma guard_keeps_history:
  "publish demo_platform 0 []
     \<lparr>metadata_json = Some (JObj [(js ''totalItems'', JNum (Fin 120))]), data_json = None,
      data_csv = None\<rparr> =
   (Inl (Error (js ''Mayrand onsale scrape returned 0 items; historical count #. Aborting publish.'')),
    \<lparr>metadata_json = Some (JObj [(js ''totalItems'', JNum (Fin 120))]), data_json = None,
      data_csv = None\<rparr>)"
  by (simp add: publish_def readHistoricalCount_def finite_prop_def nullish_def demo_platform_def js_def)

text \<open>\<open>main\<close> ends with the guard: when the traversal returns, the result of the run
  is the result of \<open>publish\<close> on the enriched records.\<close>

lemma main_publishes:
  assumes "run_queries io pf [js ''onsale'', js ''promo'', js ''solde''] None s = (Inr (Some r), s')"
  shows "main io pf fetch (s, st) =
           (fst (publish pf (pagesScraped r)
                   (enrichItemsWithDetails fetch (final_items pf (items r))) st),
            (s', snd (publish pf (pagesScraped r)
                   (enrichItemsWithDetails fetch (final_items pf (items r))) st)))"
  using assms by (simp add: main_def Let_def split: prod.splits)

section \<open>Prices of the published records\<close>

lemma parse_5: "parseNumber (Some (js ''5,00 $'')) = Some 5"
  by code_simp

lemma parse_10: "parseNumber (Some (js ''10,00 $'')) = Some 10"
  by code_simp

lemma parseNumber_None: "parseNumber None = None"
  by (simp add: parseNumber_def falsy_def)

text \<open>A record of the listing never has two equal prices.\<close>

lemma listing_prices_distinct:
  "\<not> (sale (listing_prices f) \<noteq> None \<and> regular (listing_prices f) \<noteq> None
      \<and> sale (listing_prices f) = regular (listing_prices f))"
  by (auto simp: listing_prices_def normalizePricePair_def Let_def)

lemma demo_item_prices: "price_sale demo_item = Some 5 \<and> price_regular demo_item = Some 10"
  by (simp add: demo_item_def listing_item_def listing_prices_def demo_card_def parse_5 parse_10
        normalizePricePair_def Let_def)

lemma demo_detail_prices: "detail_prices demo_details = \<lparr>sale = None, regular = Some 5\<rparr>"
  by (simp add: detail_prices_def demo_details_def parse_5 parseNumber_None
        normalizePricePair_def nullish_def Let_def)

lemma demo_item_url: "\<not> falsy (url demo_item)"
  by (simp add: demo_item_def listing_item_def falsy_def buildFallbackUrl_def resolveUrl_def
        demo_card_def js_def Let_def)

text \<open>
  C1 fails in the enrichment. The listing gave the record the prices 5 (sale) and 10
  (regular); its detail page shows the price 5 only. \<open>normalizePricePair\<close> turns the
  detail prices into \<open>{sale: null, regular: 5}\<close>, and the merge
  \<^verbatim>\<open>normalizedPrices.sale ?? item.price_sale\<close> puts the sale price of the listing back:
  the published record has \<open>price_sale = price_regular = 5\<close>.
\<close>

theorem enrich_equal_prices:
  "price_sale (enrichItemsWithDetails (\<lambda>i. Inr demo_details) [demo_item] ! 0) = Some 5
   \<and> price_regular (enrichItemsWithDetails (\<lambda>i. Inr demo_details) [demo_item] ! 0) = Some 5
   \<and> price_sale demo_item = Some 5 \<and> price_regular demo_item = Some 10"
  by (simp add: enrichItemsWithDetails_def enrich_slot_def enrich_with_def demo_detail_prices
        demo_item_prices demo_item_url nullish_def Let_def)

section \<open>Properties of the traversal\<close>

lemma bnd_Inr_iff:
  "bnd m f s = (Inr y, s') \<longleftrightarrow> (\<exists>x s1. m s = (Inr x, s1) \<and> f x s1 = (Inr y, s'))"
  by (cases "m s") (auto simp: bnd_def split: sum.splits)

lemma bndE:
  assumes "bnd m f s = (Inr y, s')"
  obtains x s1 where "m s = (Inr x, s1)" and "f x s1 = (Inr y, s')"
  using assms by (auto simp: bnd_Inr_iff)

lemma ret_Inr_iff: "ret x s = (Inr y, s') \<longleftrightarrow> y = x \<and> s' = s"
  by (auto simp: ret_def)

lemma absorb_page_currentPage [simp]:
  "currentPage (absorb_page pf q b now st x) = currentPage st"
  by (simp add: absorb_page_def Let_def)

lemma absorb_page_pageCount [simp]:
  "pageCount (absorb_page pf q b now st x) = pageCount st + 1"
  by (simp add: absorb_page_def Let_def)

lemma stop_or_go:
  assumes "bnd m (\<lambda>_. if A then ret X else if B then ret Y else ret Z) s = (Inr v, s')"
  shows "v = X \<or> v = Y \<or> v = Z"
  using assms by (auto simp: bnd_Inr_iff ret_Inr_iff split: if_splits)

lemma page_visit_cases:
  assumes "page_visit io pf q b st s = (Inr v, s')"
  shows "v = Finished (Stop None st) \<or>
         (\<exists>x now. v = Finished (Stop (Some ''empty-pages-streak'') (absorb_page pf q b now st x)) \<or>
                  v = Finished (Stop (Some ''max-page-reached'') (absorb_page pf q b now st x)) \<or>
                  v = Visited x (absorb_page pf q b now st x))"
proof -
  from assms obtain ex le s0 where
    rest: "(case ex of
             None \<Rightarrow>
               bnd (debug_sink io (PageError (currentPage st))) (\<lambda>_. ret (Finished (Stop None st)))
           | Some x \<Rightarrow>
               bnd (if length (results x) = 0 then debug_sink io (ZeroItems (currentPage st))
                    else ret ()) (\<lambda>_.
               bnd (if visibleCardCount x = 0 then debug_sink io (EmptyPage (currentPage st))
                    else ret ()) (\<lambda>_. (\<lambda>s1.
               let st1 = absorb_page pf q b (now_iso io s1) st x
               in bnd (if length (results x) = 0
                       then debug_sink io (ExtractionZero (currentPage st)) else ret ()) (\<lambda>_.
                  if emptyPageStreak st1 \<ge> 2
                    then ret (Finished (Stop (Some ''empty-pages-streak'') st1))
                  else if maxPage st1 \<noteq> None \<and> currentPage st \<ge> the (maxPage st1)
                    then ret (Finished (Stop (Some ''max-page-reached'') st1))
                  else ret (Visited x st1)) s1)))) s0 = (Inr v, s')"
    unfolding page_visit_def Let_def bnd_Inr_iff by (auto simp only: split_beta)
  show ?thesis
  proof (cases ex)
    case None
    with rest show ?thesis by (auto simp: bnd_Inr_iff ret_Inr_iff)
  next
    case (Some x)
    define F where "F = (\<lambda>s1.
               let st1 = absorb_page pf q b (now_iso io s1) st x
               in bnd (if length (results x) = 0
                       then debug_sink io (ExtractionZero (currentPage st)) else ret ()) (\<lambda>_.
                  if emptyPageStreak st1 \<ge> 2
                    then ret (Finished (Stop (Some ''empty-pages-streak'') st1))
                  else if maxPage st1 \<noteq> None \<and> currentPage st \<ge> the (maxPage st1)
                    then ret (Finished (Stop (Some ''max-page-reached'') st1))
                  else ret (Visited x st1)) s1)"
    from rest Some have
      "bnd (if length (results x) = 0 then debug_sink io (ZeroItems (currentPage st))
            else ret ()) (\<lambda>_.
       bnd (if visibleCardCount x = 0 then debug_sink io (EmptyPage (currentPage st))
            else ret ()) (\<lambda>_. F)) s0 = (Inr v, s')"
      by (simp add: F_def)
    then obtain s1 where
      "bnd (if visibleCardCount x = 0 then debug_sink io (EmptyPage (currentPage st))
            else ret ()) (\<lambda>_. F) s1 = (Inr v, s')"
      by (rule bndE)
    then obtain s2 where "F s2 = (Inr v, s')" by (rule bndE)
    then have
      "bnd (if length (results x) = 0
            then debug_sink io (ExtractionZero (currentPage st)) else ret ()) (\<lambda>_.
         if emptyPageStreak (absorb_page pf q b (now_iso io s2) st x) \<ge> 2
           then ret (Finished (Stop (Some ''empty-pages-streak'')
                      (absorb_page pf q b (now_iso io s2) st x)))
         else if maxPage (absorb_page pf q b (now_iso io s2) st x) \<noteq> None \<and>
                 currentPage st \<ge> the (maxPage (absorb_page pf q b (now_iso io s2) st x))
           then ret (Finished (Stop (Some ''max-page-reached'')
                      (absorb_page pf q b (now_iso io s2) st x)))
         else ret (Visited x (absorb_page pf q b (now_iso io s2) st x))) s2 = (Inr v, s')"
      by (simp add: F_def Let_def)
    from stop_or_go [OF this] show ?thesis by blast
  qed
qed

lemma after_transition_cases:
  assumes "after_transition io x st ps s = (Inr r, s')"
  shows "(r = Continue st \<and> (\<exists>p. ps = Some p \<and> afterActive p = Some (currentPage st + 1))) \<or>
         (r = Stop (Some ''no-next-page'') st \<and>
            ((\<exists>p. ps = Some p \<and> afterActive p \<noteq> Some (currentPage st + 1)) \<or>
             (ps = None \<and> disabled (nextPage x) \<noteq> Some True)) \<and> s' = s) \<or>
         (r = Stop (Some ''next-disabled'') st \<and> ps = None \<and> disabled (nextPage x) = Some True \<and> s' = s)"
  using assms
  by (auto simp: after_transition_def bnd_Inr_iff ret_Inr_iff split: option.splits if_splits)

lemma page_step_cases:
  assumes "page_step io pf q b st s = (Inr r, s')"
  shows "r = Stop None st \<or>
         (\<exists>st1. currentPage st1 = currentPage st \<and> pageCount st1 = pageCount st + 1 \<and>
            (r = Continue st1 \<or>
             (\<exists>reason. r = Stop (Some reason) st1 \<and>
                reason \<in> set [''empty-pages-streak'', ''max-page-reached'', ''next-disabled'',
                               ''no-next-page''])))"
proof -
  from assms obtain v s1 where v: "page_visit io pf q b st s = (Inr v, s1)"
    and rest: "(case v of Finished r \<Rightarrow> ret r
                | Visited x st1 \<Rightarrow> bnd (paginate io pf b x st1) (after_transition io x st1)) s1
               = (Inr r, s')"
    by (auto simp: page_step_def bnd_Inr_iff)
  show ?thesis
  proof (cases v)
    case (Finished r0)
    with rest have "r = r0" by (simp add: ret_Inr_iff)
    with Finished page_visit_cases [OF v] show ?thesis by auto
  next
    case (Visited x st1)
    with page_visit_cases [OF v] obtain now where st1: "st1 = absorb_page pf q b now st x" by auto
    from rest Visited obtain ps s2 where "after_transition io x st1 ps s2 = (Inr r, s')"
      by (auto simp: bnd_Inr_iff)
    from after_transition_cases [OF this] st1 show ?thesis by auto
  qed
qed

lemma page_step_Stop:
  assumes "page_step io pf q b st s = (Inr (Stop r0 st0), s')"
  shows "(r0 = None \<and> st0 = st) \<or>
         (\<exists>reason. r0 = Some reason \<and>
            reason \<in> set [''empty-pages-streak'', ''max-page-reached'', ''next-disabled'',
                           ''no-next-page''] \<and>
            currentPage st0 = currentPage st \<and> pageCount st0 = pageCount st + 1)"
  using page_step_cases [OF assms] by blast

lemma page_step_Continue:
  assumes "page_step io pf q b st s = (Inr (Continue st0), s')"
  shows "currentPage st0 = currentPage st \<and> pageCount st0 = pageCount st + 1"
  using page_step_cases [OF assms] by blast

declare scrape_loop.simps [simp del] page_attempts.simps [simp del]
  click_attempts.simps [simp del] waitForResults_from.simps [simp del]
  waitForCardsStable_from.simps [simp del] digits_of.simps [simp del]

lemma scrape_loop_unfold:
  "scrape_loop io pf q b st s =
     (if currentPage st \<le> PAGE_MAX_LIMIT then
        (case page_step io pf q b st s of
           (Inl e, s') \<Rightarrow> (Inl e, s')
         | (Inr (Stop r st'), s') \<Rightarrow> (Inr (r, st'), s')
         | (Inr (Continue st'), s') \<Rightarrow>
             scrape_loop io pf q b (st'\<lparr>currentPage := currentPage st + 1\<rparr>) s')
      else (Inr (None, st), s))"
  by (rule scrape_loop.simps)

text \<open>
  The loop invariant: at the head of the loop the pages \<open>1 .. currentPage - 1\<close> have been
  counted. When the loop ends, either its condition failed after page 100, or a \<open>break\<close>
  left it on a page from 1 to 100.
\<close>

lemma scrape_loop_result:
  assumes "scrape_loop io pf q b st s = (Inr (r, st'), s')"
      and "int (pageCount st) = currentPage st - 1"
      and "1 \<le> currentPage st" and "currentPage st \<le> PAGE_MAX_LIMIT + 1"
  shows "(r = None \<and> currentPage st' = PAGE_MAX_LIMIT + 1 \<and> pageCount st' = 100) \<or>
         (r = None \<and> 1 \<le> currentPage st' \<and> currentPage st' \<le> PAGE_MAX_LIMIT \<and>
            int (pageCount st') = currentPage st' - 1) \<or>
         (\<exists>reason. r = Some reason \<and>
            reason \<in> set [''empty-pages-streak'', ''max-page-reached'', ''next-disabled'',
                           ''no-next-page''] \<and>
            1 \<le> currentPage st' \<and> currentPage st' \<le> PAGE_MAX_LIMIT \<and>
            int (pageCount st') = currentPage st')"
  using assms
proof (induction "nat (PAGE_MAX_LIMIT + 1 - currentPage st)" arbitrary: st s)
  case 0
  then have cp: "currentPage st = PAGE_MAX_LIMIT + 1" by simp
  then have "scrape_loop io pf q b st s = (Inr (None, st), s)"
    by (subst scrape_loop_unfold) simp
  with "0.prems"(1) have "r = None" "st' = st" by simp_all
  with cp "0.prems"(2) show ?case by (simp add: PAGE_MAX_LIMIT_def)
next
  case (Suc n)
  then have le: "currentPage st \<le> PAGE_MAX_LIMIT" by simp
  obtain res s1 where step: "page_step io pf q b st s = (res, s1)"
    by (cases "page_step io pf q b st s")
  from le have unf: "scrape_loop io pf q b st s =
     (case res of
        Inl e \<Rightarrow> (Inl e, s1)
      | Inr (Stop r0 st0) \<Rightarrow> (Inr (r0, st0), s1)
      | Inr (Continue st0) \<Rightarrow>
          scrape_loop io pf q b (st0\<lparr>currentPage := currentPage st + 1\<rparr>) s1)"
    by (subst scrape_loop_unfold) (simp add: step)
  show ?case
  proof (cases res)
    case (Inl e)
    with Suc.prems(1) unf show ?thesis by simp
  next
    case (Inr sr)
    show ?thesis
    proof (cases sr)
      case (Stop r0 st0)
      with Suc.prems(1) unf Inr have eq: "r = r0" "st' = st0" "s' = s1"
        by simp_all
      from step Inr Stop have "page_step io pf q b st s = (Inr (Stop r0 st0), s1)" by simp
      from page_step_Stop [OF this] show ?thesis
      proof
        assume "r0 = None \<and> st0 = st"
        with eq have "r = None" "st' = st" by simp_all
        with Suc.prems(2,3) le show ?thesis by simp
      next
        assume "\<exists>reason. r0 = Some reason \<and>
            reason \<in> set [''empty-pages-streak'', ''max-page-reached'', ''next-disabled'',
                           ''no-next-page''] \<and>
            currentPage st0 = currentPage st \<and> pageCount st0 = pageCount st + 1"
        then obtain reason where rs: "r0 = Some reason"
          "reason \<in> set [''empty-pages-streak'', ''max-page-reached'', ''next-disabled'',
                           ''no-next-page'']"
          and c: "currentPage st0 = currentPage st" "pageCount st0 = pageCount st + 1"
          by blast
        from c Suc.prems(2) have "int (pageCount st0) = currentPage st0" by simp
        moreover from c Suc.prems(3) le have "1 \<le> currentPage st0" "currentPage st0 \<le> PAGE_MAX_LIMIT"
          by simp_all
        ultimately show ?thesis using rs eq by blast
      qed
    next
      case (Continue st0)
      with step Inr have "page_step io pf q b st s = (Inr (Continue st0), s1)" by simp
      from page_step_Continue [OF this]
      have c0: "currentPage st0 = currentPage st" "pageCount st0 = pageCount st + 1"
        by simp_all
      define st2 where "st2 = st0\<lparr>currentPage := currentPage st + 1\<rparr>"
      from Suc.prems(1) unf Inr Continue
      have run: "scrape_loop io pf q b st2 s1 = (Inr (r, st'), s')"
        by (simp add: st2_def)
      have "n = nat (PAGE_MAX_LIMIT + 1 - currentPage st2)"
        using Suc.hyps(2) by (simp add: st2_def)
      moreover have "int (pageCount st2) = currentPage st2 - 1"
        using c0 Suc.prems(2) by (simp add: st2_def)
      moreover have "1 \<le> currentPage st2" "currentPage st2 \<le> PAGE_MAX_LIMIT + 1"
        using Suc.prems(3) le by (simp_all add: st2_def)
      ultimately show ?thesis by (rule Suc.hyps(1) [OF _ run])
    qed
  qed
qed

lemma scrapeListing_unfold:
  assumes "scrapeListing io pf q s = (Inr res, s')"
  obtains r st where
    "scrape_loop io pf q (baseUrl res) initial_loop_state s = (Inr (r, st), s')"
    "items res = allItems st" "pagesScraped res = pageCount st"
    "stoppedReason res =
       (case r of Some reason \<Rightarrow> reason
        | None \<Rightarrow> if currentPage st > PAGE_MAX_LIMIT then ''page-limit-reached'' else ''completed'')"
proof -
  define b where
    "b = (if q = [] then BASE_URL else url_with_param pf BASE_URL (js ''search'') q)"
  from assms obtain r st where
    loop: "scrape_loop io pf q b initial_loop_state s = (Inr (r, st), s')"
    and res: "res = \<lparr>baseUrl = b, items = allItems st, pagesScraped = pageCount st,
                   stoppedReason =
                     (case r of
                        Some reason \<Rightarrow> reason
                      | None \<Rightarrow> if currentPage st > PAGE_MAX_LIMIT then ''page-limit-reached''
                                else ''completed'')\<rparr>"
    unfolding scrapeListing_def Let_def b_def [symmetric] initial_loop_state_def [symmetric]
    by (auto simp: bnd_Inr_iff ret_Inr_iff)
  from res have "baseUrl res = b" by simp
  with loop res that show ?thesis by simp
qed

text \<open>
  C8. A traversal that returns has counted at most 100 pages; its loop ended on a page
  from 1 to 100, or after page 100 because its condition failed, and the reason is
  \<open>page-limit-reached\<close> exactly in the second case, with 100 pages counted.
\<close>

theorem scrapeListing_page_limit:
  assumes "scrapeListing io pf q s = (Inr res, s')"
  shows "pagesScraped res \<le> 100 \<and>
         (\<exists>r st. scrape_loop io pf q (baseUrl res) initial_loop_state s = (Inr (r, st), s') \<and>
            1 \<le> currentPage st \<and> currentPage st \<le> PAGE_MAX_LIMIT + 1 \<and>
            (stoppedReason res = ''page-limit-reached'') = (currentPage st > PAGE_MAX_LIMIT) \<and>
            (if currentPage st > PAGE_MAX_LIMIT then r = None \<and> pagesScraped res = 100
             else int (pagesScraped res) \<le> currentPage st))"
proof -
  from assms obtain r st where
    loop: "scrape_loop io pf q (baseUrl res) initial_loop_state s = (Inr (r, st), s')"
    and pc: "pagesScraped res = pageCount st"
    and sr: "stoppedReason res =
       (case r of Some reason \<Rightarrow> reason
        | None \<Rightarrow> if currentPage st > PAGE_MAX_LIMIT then ''page-limit-reached'' else ''completed'')"
    by (rule scrapeListing_unfold)
  have "int (pageCount initial_loop_state) = currentPage initial_loop_state - 1"
    "1 \<le> currentPage initial_loop_state" "currentPage initial_loop_state \<le> PAGE_MAX_LIMIT + 1"
    by (simp_all add: initial_loop_state_def PAGE_MAX_LIMIT_def)
  from scrape_loop_result [OF loop this] pc sr have
    "pagesScraped res \<le> 100 \<and> 1 \<le> currentPage st \<and> currentPage st \<le> PAGE_MAX_LIMIT + 1 \<and>
     (stoppedReason res = ''page-limit-reached'') = (currentPage st > PAGE_MAX_LIMIT) \<and>
     (if currentPage st > PAGE_MAX_LIMIT then r = None \<and> pagesScraped res = 100
      else int (pagesScraped res) \<le> currentPage st)"
    by (auto simp: PAGE_MAX_LIMIT_def)
  with loop show ?thesis by blast
qed

text \<open>
  C5, as the code has it. The traversal keeps no record of the addresses it has seen, and
  the reason it returns is one of six; \<open>pagination-stalled\<close> is not among them.
\<close>

theorem scrapeListing_reasons:
  assumes "scrapeListing io pf q s = (Inr res, s')"
  shows "stoppedReason res \<in> set [''empty-pages-streak'', ''max-page-reached'', ''next-disabled'',
           ''no-next-page'', ''page-limit-reached'', ''completed'']
         \<and> stoppedReason res \<noteq> ''pagination-stalled''"
proof -
  from assms obtain r st where
    loop: "scrape_loop io pf q (baseUrl res) initial_loop_state s = (Inr (r, st), s')"
    and sr: "stoppedReason res =
       (case r of Some reason \<Rightarrow> reason
        | None \<Rightarrow> if currentPage st > PAGE_MAX_LIMIT then ''page-limit-reached'' else ''completed'')"
    by (rule scrapeListing_unfold)
  have "int (pageCount initial_loop_state) = currentPage initial_loop_state - 1"
    "1 \<le> currentPage initial_loop_state" "currentPage initial_loop_state \<le> PAGE_MAX_LIMIT + 1"
    by (simp_all add: initial_loop_state_def PAGE_MAX_LIMIT_def)
  from scrape_loop_result [OF loop this] sr show ?thesis by auto
qed

text \<open>
  C6, as the code has it. After a page that the loop tries to leave, a transition that
  returns a status whose active page is not \<open>currentPage + 1\<close>, or that returns no
  status, ends the traversal there: no further page is counted. The reason is
  \<open>no-next-page\<close>, except that it is \<open>next-disabled\<close> when there is no status and the
  next control of the page was disabled.
\<close>

theorem transition_mismatch_stops:
  assumes "currentPage st \<le> PAGE_MAX_LIMIT"
      and "page_visit io pf q b st s = (Inr (Visited x st1), s1)"
      and "paginate io pf b x st1 s1 = (Inr status_v, s2)"
      and "\<forall>ps. status_v = Some ps \<longrightarrow> afterActive ps \<noteq> Some (currentPage st + 1)"
  shows "scrape_loop io pf q b st s =
           (Inr (Some (if status_v = None \<and> disabled (nextPage x) = Some True
                       then ''next-disabled'' else ''no-next-page''), st1), s2)
         \<and> pageCount st1 = pageCount st + 1 \<and> currentPage st1 = currentPage st"
proof -
  from page_visit_cases [OF assms(2)] obtain now where st1: "st1 = absorb_page pf q b now st x"
    by auto
  then have cp: "currentPage st1 = currentPage st" and pc: "pageCount st1 = pageCount st + 1"
    by simp_all
  have "after_transition io x st1 status_v s2 =
          (Inr (Stop (Some (if status_v = None \<and> disabled (nextPage x) = Some True
                            then ''next-disabled'' else ''no-next-page'')) st1), s2)"
    using assms(4) cp by (cases status_v) (auto simp: after_transition_def ret_def)
  with assms(2,3) have "page_step io pf q b st s =
          (Inr (Stop (Some (if status_v = None \<and> disabled (nextPage x) = Some True
                            then ''next-disabled'' else ''no-next-page'')) st1), s2)"
    by (simp add: page_step_def bnd_def)
  with assms(1) cp pc show ?thesis
    by (subst scrape_loop_unfold) simp
qed

section \<open>Runs on the small sites\<close>


lemma demo_fields:
  "page_goto (demo_surface w) u s = (Inr (), s)"
  "acceptCookies (demo_surface w) s = s"
  "waitForTimeout (demo_surface w) ms s = (Inr (), s)"
  "waitForSelector (demo_surface w) ms s = (Inr (), s)"
  "waitForLoadState (demo_surface w) s = (Inr (), s)"
  "countCards (demo_surface w) s = (Inr 1, s)"
  "getResultsDomState (demo_surface w) s =
     (Inr \<lparr>cardsCount = 1, loaderVisible = False, resultsCountText = None,
              emptyStateText = None, containerSelector = None\<rparr>, s)"
  "getListingCardCount (demo_surface w) s = (Inr 1, s)"
  "scrollToBottom (demo_surface w) s = (Inr (), s)"
  "scrollToTop (demo_surface w) s = (Inr (), s)"
  "scrapePage (demo_surface w) s = (Inr (demo_extracted w s), s)"
  "killOverlays (demo_surface w) s = (Inr (), s)"
  "getActivePage (demo_surface w) s = (Inr (Some s), s)"
  "getCardsSignature (demo_surface w) s = (Inr [], s)"
  "getPagerText (demo_surface w) s = (Inr [], s)"
  "button_count (demo_surface w) k s = (Inr (if has_button w then 1 else 0), s)"
  "button_attribute (demo_surface w) k a s = (Inr None, s)"
  "button_scrollIntoView (demo_surface w) k s = (Inr (), s)"
  "button_click (demo_surface w) k force s = (Inr (), if click_moves w then k else s)"
  "debug_sink (demo_surface w) ev s = (Inr (), s)"
  "sleep (demo_surface w) ms s = s"
  by (simp_all add: demo_surface_def demo_extracted_def)

lemma demo_waitStable: "waitForCardsStable (demo_surface w) s = (Inr 1, s)"
  unfolding waitForCardsStable_def
  apply (subst waitForCardsStable_from.simps)
  apply (simp add: demo_fields bnd_def ret_def)
  apply (subst waitForCardsStable_from.simps)
  apply (simp add: demo_fields bnd_def ret_def)
  done

lemma demo_waitResults:
  "waitForResultsWithRetry (demo_surface w) s =
     (Inr \<lparr>cardsCount = 1, loaderVisible = False, resultsCountText = None,
              emptyStateText = None, containerSelector = None\<rparr>, s)"
  unfolding waitForResultsWithRetry_def
  apply (subst waitForResults_from.simps)
  apply (simp add: demo_fields bnd_def ret_def RESULT_WAIT_ATTEMPTS_def)
  done

lemma demo_scroll: "scrollForLazyLoad (demo_surface w) s = (Inr (1, 1), s)"
  by (simp add: scrollForLazyLoad_def demo_fields bnd_def ret_def)

lemma demo_attempts:
  "page_attempts (demo_surface w) u p 0 None None s = (Inr (Some (demo_extracted w s), None), s)"
  apply (subst page_attempts.simps)
  apply (simp add: bnd_def catch_def ret_def lift_def demo_waitStable demo_waitResults demo_scroll
           PAGE_RETRY_COUNT_def demo_fields)
  apply (simp add: demo_extracted_def)
  done

lemma demo_click:
  assumes "has_button w" "click_moves w"
  shows "goToPage (demo_surface w) pf b t s =
           (Inr (Some \<lparr>beforeActive = Some s, afterActive = Some t, sigChanged = (s \<noteq> t)\<rparr>), t)"
  unfolding goToPage_def
  apply (subst click_attempts.simps)
  apply (simp add: bnd_def catch_def ret_def demo_waitStable demo_waitResults demo_fields assms)
  done

lemma demo_goto_url:
  assumes "\<not> has_button w"
  shows "goToPage (demo_surface w) pf b t s =
           (Inr (Some \<lparr>beforeActive = Some s, afterActive = Some s, sigChanged = False\<rparr>), s)"
  unfolding goToPage_def
  by (simp add: bnd_def ret_def demo_waitStable demo_fields assms)

lemma pager_empty: "pagerShowsTarget pf [] t = False"
  by (simp add: pagerShowsTarget_def)

lemma demo_click_fails:
  assumes "has_button w" "\<not> click_moves w" "s \<noteq> t" "n \<le> 4"
  shows "click_attempts (demo_surface w) pf t (Suc n) s =
           click_attempts (demo_surface w) pf t (Suc (Suc n)) s"
  apply (subst click_attempts.simps)
  apply (simp add: bnd_def catch_def ret_def demo_waitStable demo_waitResults demo_fields assms
           pager_empty)
  done

lemma demo_stuck:
  assumes "has_button w" "\<not> click_moves w" "s \<noteq> t"
  shows "goToPage (demo_surface w) pf b t s = (Inr None, s)"
proof -
  have "click_attempts (demo_surface w) pf t 1 s = click_attempts (demo_surface w) pf t 6 s"
    using demo_click_fails [OF assms, of 0] demo_click_fails [OF assms, of 1]
      demo_click_fails [OF assms, of 2] demo_click_fails [OF assms, of 3]
      demo_click_fails [OF assms, of 4]
    by (simp add: numeral_eq_Suc)
  also have "\<dots> = (Inr None, s)"
    by (subst click_attempts.simps) (simp add: bnd_def ret_def demo_fields)
  finally show ?thesis
    unfolding goToPage_def by (simp add: bnd_def ret_def demo_fields assms)
qed

lemma absorb_demo:
  "emptyPageStreak (absorb_page pf q b now st (demo_extracted w s)) = 0"
  "maxPage (absorb_page pf q b now st (demo_extracted w s)) =
     (case getMaxPageFromButtons (buttons w) of
        None \<Rightarrow> maxPage st
      | Some d \<Rightarrow> (case maxPage st of None \<Rightarrow> Some d | Some m \<Rightarrow> Some (max m d)))"
  by (simp_all add: absorb_page_def demo_extracted_def Let_def nullish_def getPaginationInfo_def
        split: option.splits)

lemma demo_visit:
  assumes "getMaxPageFromButtons (buttons w) = Some N" and "currentPage st < N"
  shows "\<exists>st1. page_visit (demo_surface w) pf q b st s = (Inr (Visited (demo_extracted w s) st1), s)
           \<and> currentPage st1 = currentPage st \<and> pageCount st1 = pageCount st + 1
           \<and> (\<exists>M. maxPage st1 = Some M \<and> N \<le> M)"
proof -
  define st1 where "st1 = absorb_page pf q b (now_iso (demo_surface w) s) st (demo_extracted w s)"
  have mp: "\<exists>M. maxPage st1 = Some M \<and> N \<le> M"
    by (cases "maxPage st") (simp_all add: st1_def absorb_demo assms)
  then obtain M where M: "maxPage st1 = Some M" "N \<le> M" by blast
  have eps: "emptyPageStreak st1 = 0" by (simp add: st1_def absorb_demo)
  have "length (results (demo_extracted w s)) \<noteq> 0" "visibleCardCount (demo_extracted w s) \<noteq> 0"
    by (simp_all add: demo_extracted_def)
  with M eps assms(2) have "page_visit (demo_surface w) pf q b st s =
      (Inr (Visited (demo_extracted w s) st1), s)"
    unfolding page_visit_def Let_def
    by (simp add: demo_attempts bnd_def ret_def st1_def [symmetric])
  moreover have "currentPage st1 = currentPage st" "pageCount st1 = pageCount st + 1"
    by (simp_all add: st1_def)
  ultimately show ?thesis using mp by blast
qed

lemma demo_paginate:
  assumes "maxPage st1 = Some M" and "currentPage st1 < M"
  shows "paginate (demo_surface w) pf b (demo_extracted w s) st1 s' =
           goToPage (demo_surface w) pf b (currentPage st1 + 1) s'"
  using assms
  by (simp add: paginate_def goToNextPage_def demo_extracted_def bnd_def ret_def falsy_def)

lemma demo_step_continue:
  assumes "has_button w" "click_moves w"
      and "getMaxPageFromButtons (buttons w) = Some N" and "currentPage st < N"
  shows "\<exists>st1. page_step (demo_surface w) pf q b st s = (Inr (Continue st1), currentPage st + 1)"
proof -
  from demo_visit [OF assms(3,4)] obtain st1 M where
    v: "page_visit (demo_surface w) pf q b st s = (Inr (Visited (demo_extracted w s) st1), s)"
    and c: "currentPage st1 = currentPage st" and M: "maxPage st1 = Some M" "N \<le> M"
    by blast
  from M assms(4) c have lt: "currentPage st1 < M" by simp
  have "page_step (demo_surface w) pf q b st s = (Inr (Continue st1), currentPage st + 1)"
    by (simp add: page_step_def bnd_def v demo_paginate [OF M(1) lt] demo_click [OF assms(1,2)]
          after_transition_def c lift_def ret_def demo_fields)
  then show ?thesis by blast
qed

text \<open>On the site of 150 pages the loop runs until its condition fails.\<close>

lemma long_loop:
  assumes "1 \<le> currentPage st" and "currentPage st \<le> PAGE_MAX_LIMIT"
  shows "\<exists>st'. scrape_loop (demo_surface long_site) pf q b st s = (Inr (None, st'), PAGE_MAX_LIMIT + 1)
           \<and> currentPage st' = PAGE_MAX_LIMIT + 1"
  using assms
proof (induction "nat (PAGE_MAX_LIMIT - currentPage st)" arbitrary: st s)
  case 0
  then have cp: "currentPage st = PAGE_MAX_LIMIT" by simp
  have mx: "getMaxPageFromButtons (buttons long_site) = Some 150"
    by (simp add: getMaxPageFromButtons_def long_site_def)
  have "currentPage st < 150" using cp by (simp add: PAGE_MAX_LIMIT_def)
  from demo_step_continue [OF _ _ mx this, of pf q b s] obtain st1 where
    step: "page_step (demo_surface long_site) pf q b st s = (Inr (Continue st1), currentPage st + 1)"
    by (auto simp: long_site_def)
  have "scrape_loop (demo_surface long_site) pf q b st s =
          scrape_loop (demo_surface long_site) pf q b (st1\<lparr>currentPage := currentPage st + 1\<rparr>)
            (currentPage st + 1)"
    using cp by (subst scrape_loop_unfold) (simp add: step)
  also have "\<dots> = (Inr (None, st1\<lparr>currentPage := currentPage st + 1\<rparr>), currentPage st + 1)"
    using cp by (subst scrape_loop_unfold) simp
  finally show ?case using cp by simp
next
  case (Suc n)
  then have lt: "currentPage st < PAGE_MAX_LIMIT" by simp
  have mx: "getMaxPageFromButtons (buttons long_site) = Some 150"
    by (simp add: getMaxPageFromButtons_def long_site_def)
  have "currentPage st < 150" using lt by (simp add: PAGE_MAX_LIMIT_def)
  from demo_step_continue [OF _ _ mx this, of pf q b s] obtain st1 where
    step: "page_step (demo_surface long_site) pf q b st s = (Inr (Continue st1), currentPage st + 1)"
    by (auto simp: long_site_def)
  define st2 where "st2 = st1\<lparr>currentPage := currentPage st + 1\<rparr>"
  have unf: "scrape_loop (demo_surface long_site) pf q b st s =
          scrape_loop (demo_surface long_site) pf q b st2 (currentPage st + 1)"
    using lt by (subst scrape_loop_unfold) (simp add: step st2_def)
  have "n = nat (PAGE_MAX_LIMIT - currentPage st2)" using Suc.hyps(2) by (simp add: st2_def)
  moreover have "1 \<le> currentPage st2" "currentPage st2 \<le> PAGE_MAX_LIMIT"
    using Suc.prems lt by (simp_all add: st2_def)
  ultimately have "\<exists>st'. scrape_loop (demo_surface long_site) pf q b st2 (currentPage st + 1) =
      (Inr (None, st'), PAGE_MAX_LIMIT + 1) \<and> currentPage st' = PAGE_MAX_LIMIT + 1"
    by (rule Suc.hyps(1))
  with unf show ?case by simp
qed

lemma long_run:
  "\<exists>res. scrapeListing (demo_surface long_site) demo_platform (js ''onsale'') 1 = (Inr res, 101)
     \<and> stoppedReason res = ''page-limit-reached''"
proof -
  define b where "b = (if js ''onsale'' = [] then BASE_URL
                       else url_with_param demo_platform BASE_URL (js ''search'') (js ''onsale''))"
  have "1 \<le> currentPage initial_loop_state" "currentPage initial_loop_state \<le> PAGE_MAX_LIMIT"
    by (simp_all add: initial_loop_state_def PAGE_MAX_LIMIT_def)
  from long_loop [OF this, of demo_platform "js ''onsale''" b 1] obtain st' where
    "scrape_loop (demo_surface long_site) demo_platform (js ''onsale'') b initial_loop_state 1 =
       (Inr (None, st'), PAGE_MAX_LIMIT + 1)" and "currentPage st' = PAGE_MAX_LIMIT + 1"
    by blast
  then show ?thesis
    unfolding scrapeListing_def Let_def b_def [symmetric]
    by (simp add: bnd_def ret_def PAGE_MAX_LIMIT_def)
qed

text \<open>The limit is reached: 100 pages are counted, and page 101, which the site shows at
  the end, is not visited.\<close>

theorem page_limit_witness:
  "\<exists>res. scrapeListing (demo_surface long_site) demo_platform (js ''onsale'') 1 = (Inr res, 101)
     \<and> stoppedReason res = ''page-limit-reached'' \<and> pagesScraped res = 100
     \<and> pagesScraped res \<le> 100"
proof -
  from long_run obtain res where
    run: "scrapeListing (demo_surface long_site) demo_platform (js ''onsale'') 1 = (Inr res, 101)"
    and sr: "stoppedReason res = ''page-limit-reached''"
    by blast
  from scrapeListing_page_limit [OF run] sr have "pagesScraped res = 100 \<and> pagesScraped res \<le> 100"
    by (auto split: if_splits)
  with run sr show ?thesis by blast
qed

lemma paged_run:
  "run_summary (demo_surface paged_site) demo_platform (js ''onsale'') 1 =
     Some (2, ''max-page-reached'', 2)"
  by code_simp

lemma stuck_run:
  "run_summary (demo_surface stuck_site) demo_platform (js ''onsale'') 1 =
     Some (1, ''next-disabled'', 1)"
  by code_simp

text \<open>
  On the site with two pages the address is the same before and after the transition
  from page 1 to page 2, and the traversal goes on: it counts page 2 and ends because
  the last page is reached.
\<close>

theorem repeated_url_continues:
  "run_summary (demo_surface paged_site) demo_platform (js ''onsale'') 1 =
     Some (2, ''max-page-reached'', 2)
   \<and> page_url (demo_surface paged_site) 2 = page_url (demo_surface paged_site) 1"
  using paged_run by (simp add: demo_surface_def)

theorem reasons_witness:
  "\<exists>res s'. scrapeListing (demo_surface paged_site) demo_platform (js ''onsale'') 1 = (Inr res, s')
     \<and> stoppedReason res \<in> set [''empty-pages-streak'', ''max-page-reached'', ''next-disabled'',
           ''no-next-page'', ''page-limit-reached'', ''completed'']
     \<and> stoppedReason res \<noteq> ''pagination-stalled''"
proof -
  from paged_run obtain res s' where
    run: "scrapeListing (demo_surface paged_site) demo_platform (js ''onsale'') 1 = (Inr res, s')"
    by (auto simp: run_summary_def split: prod.splits sum.splits)
  from scrapeListing_reasons [OF run] run show ?thesis by blast
qed

text \<open>
  On the site whose next control is disabled and whose buttons do not react, the
  transition to page 2 gives up: the active page is still 1 after every click. The
  traversal stops, and its reason is \<open>next-disabled\<close>.
\<close>

theorem stuck_transition_next_disabled:
  "run_summary (demo_surface stuck_site) demo_platform (js ''onsale'') 1 =
     Some (1, ''next-disabled'', 1)
   \<and> goToPage (demo_surface stuck_site) demo_platform BASE_URL 2 1 = (Inr None, 1)
   \<and> getActivePage (demo_surface stuck_site) 1 = (Inr (Some 1), 1)"
proof -
  have "goToPage (demo_surface stuck_site) demo_platform BASE_URL 2 1 = (Inr None, 1)"
    by (rule demo_stuck) (simp_all add: stuck_site_def)
  with stuck_run show ?thesis by (simp add: demo_fields)
qed

text \<open>On the site without page buttons the address with \<^verbatim>\<open>page=2\<close> still shows page 1:
  the transition returns a status, the active page is not 2, and the traversal stops
  with \<open>no-next-page\<close> after one page.\<close>

theorem transition_mismatch_witness:
  "currentPage initial_loop_state \<le> PAGE_MAX_LIMIT \<and>
   (\<exists>st1 ps.
      page_visit (demo_surface linked_site) demo_platform (js ''onsale'') BASE_URL
        initial_loop_state 1 = (Inr (Visited (demo_extracted linked_site 1) st1), 1) \<and>
      paginate (demo_surface linked_site) demo_platform BASE_URL (demo_extracted linked_site 1)
        st1 1 = (Inr (Some ps), 1) \<and>
      afterActive ps = Some 1 \<and>
      scrape_loop (demo_surface linked_site) demo_platform (js ''onsale'') BASE_URL
        initial_loop_state 1 = (Inr (Some ''no-next-page'', st1), 1) \<and>
      pageCount st1 = 1)"
proof -
  have le: "currentPage initial_loop_state \<le> PAGE_MAX_LIMIT"
    by (simp add: initial_loop_state_def PAGE_MAX_LIMIT_def)
  have mx: "getMaxPageFromButtons (buttons linked_site) = Some 2"
    by (simp add: getMaxPageFromButtons_def linked_site_def)
  have "currentPage initial_loop_state < 2" by (simp add: initial_loop_state_def)
  from demo_visit [OF mx this, of demo_platform "js ''onsale''" BASE_URL 1] obtain st1 M where
    v: "page_visit (demo_surface linked_site) demo_platform (js ''onsale'') BASE_URL
          initial_loop_state 1 = (Inr (Visited (demo_extracted linked_site 1) st1), 1)"
    and c: "currentPage st1 = currentPage initial_loop_state"
    and M: "maxPage st1 = Some M" "2 \<le> M"
    by blast
  define ps where "ps = \<lparr>beforeActive = Some (1::int), afterActive = Some (1::int), sigChanged = False\<rparr>"
  have lt: "currentPage st1 < M" using c M by (simp add: initial_loop_state_def)
  have p: "paginate (demo_surface linked_site) demo_platform BASE_URL
             (demo_extracted linked_site 1) st1 1 = (Inr (Some ps), 1)"
    by (simp add: demo_paginate [OF M(1) lt] demo_goto_url linked_site_def ps_def)
  have a: "afterActive ps = Some 1" by (simp add: ps_def)
  then have "\<forall>p. Some ps = Some p \<longrightarrow> afterActive p \<noteq> Some (currentPage initial_loop_state + 1)"
    by (simp add: initial_loop_state_def)
  from transition_mismatch_stops [OF le v p this]
  have "scrape_loop (demo_surface linked_site) demo_platform (js ''onsale'') BASE_URL
          initial_loop_state 1 = (Inr (Some ''no-next-page'', st1), 1) \<and> pageCount st1 = 1"
    by (simp add: initial_loop_state_def)
  with le v p a show ?thesis by blast
qed

end
